theory Spec2Isabelle
  imports Main "HOL-Library.Sublist"
begin

section \<open>JavaScript values\<close>

text \<open>
  The generator of \<^verbatim>\<open>index.js\<close> works on the values a tool call can carry: JSON
  values. An object is the list of its own properties in the order \<^verbatim>\<open>Object.entries\<close>
  lists them (keys are distinct in a real object). A property read that finds nothing
  yields \<^verbatim>\<open>undefined\<close>, which is \<open>None\<close> of \<open>json option\<close>. Numbers are the integers
  (those a double holds and prints exactly, which covers the integers of up to 15
  significant digits); the code only looks at their \<^verbatim>\<open>typeof\<close> and their truthiness.
  Strings are lists of the 8-bit \<open>char\<close>; the code's patterns and keyword lists are ASCII.
\<close>

datatype json =
    JNull
  | JBool bool
  | JNum int
  | JStr string
  | JArr "json list"
  | JObj "(string \<times> json) list"

datatype error = TypeError | UnsupportedInputType string

fun typeof :: "json \<Rightarrow> string" where
  "typeof JNull = ''object''"
| "typeof (JBool b) = ''boolean''"
| "typeof (JNum n) = ''number''"
| "typeof (JStr s) = ''string''"
| "typeof (JArr xs) = ''object''"
| "typeof (JObj kvs) = ''object''"

fun truthy :: "json \<Rightarrow> bool" where
  "truthy JNull = False"
| "truthy (JBool b) = b"
| "truthy (JNum n) = (n \<noteq> 0)"
| "truthy (JStr s) = (s \<noteq> [])"
| "truthy (JArr xs) = True"
| "truthy (JObj kvs) = True"

definition truthy_opt :: "json option \<Rightarrow> bool" where
  "truthy_opt v = (case v of None \<Rightarrow> False | Some x \<Rightarrow> truthy x)"

text \<open>\<^verbatim>\<open>a || b\<close> where \<open>b\<close> is a defined value.\<close>

definition js_or :: "json option \<Rightarrow> json \<Rightarrow> json" where
  "js_or a b = (case a of None \<Rightarrow> b | Some x \<Rightarrow> if truthy x then x else b)"

text \<open>What throws is a value: \<open>Inl\<close> of the error. \<open>bind_err\<close> runs the next step unless
  the step before has thrown; \<open>sequence_err\<close> runs a list of steps in order.\<close>

definition bind_err :: "error + 'a \<Rightarrow> ('a \<Rightarrow> error + 'b) \<Rightarrow> error + 'b" where
  "bind_err m f = (case m of Inl e \<Rightarrow> Inl e | Inr x \<Rightarrow> f x)"

fun sequence_err :: "(error + 'a) list \<Rightarrow> error + 'a list" where
  "sequence_err [] = Inr []"
| "sequence_err (m # ms) = bind_err m (\<lambda>x. bind_err (sequence_err ms) (\<lambda>xs. Inr (x # xs)))"

subsection \<open>Strings\<close>

fun intercalate :: "string \<Rightarrow> string list \<Rightarrow> string" where
  "intercalate sep [] = []"
| "intercalate sep [x] = x"
| "intercalate sep (x # y # ys) = x @ sep @ intercalate sep (y # ys)"

definition digit_char :: "nat \<Rightarrow> char" where
  "digit_char d = ''0123456789'' ! d"

function show_nat :: "nat \<Rightarrow> string" where
  "show_nat n =
     (if n < 10 then [digit_char n] else show_nat (n div 10) @ [digit_char (n mod 10)])"
  by pat_completeness auto
termination
  by (relation "measure id") auto

declare show_nat.simps [simp del]

text \<open>
  The text of a number (\<^verbatim>\<open>Number::toString\<close>) for an integer: its decimal digits when
  there are at most 21 of them, else the exponent form \<^verbatim>\<open>d.ddde+x\<close> of its digits without
  the trailing zeros.
\<close>

definition show_digits :: "nat \<Rightarrow> string" where
  "show_digits n =
     (let digits = show_nat n in
      if length digits \<le> 21 then digits
      else
        (case rev (dropWhile (\<lambda>c. c = CHR ''0'') (rev digits)) of
           [] \<Rightarrow> digits
         | d # ds \<Rightarrow>
             (d # (if ds = [] then [] else CHR ''.'' # ds)) @ ''e+'' @ show_nat (length digits - 1)))"

definition show_int :: "int \<Rightarrow> string" where
  "show_int n = (if n < 0 then CHR ''-'' # show_digits (nat (- n)) else show_digits (nat n))"

definition toUpper_char :: "char \<Rightarrow> char" where
  "toUpper_char c =
     (case map_of (zip ''abcdefghijklmnopqrstuvwxyz'' ''ABCDEFGHIJKLMNOPQRSTUVWXYZ'') c of
        Some u \<Rightarrow> u | None \<Rightarrow> c)"

definition toLower_char :: "char \<Rightarrow> char" where
  "toLower_char c =
     (case map_of (zip ''ABCDEFGHIJKLMNOPQRSTUVWXYZ'' ''abcdefghijklmnopqrstuvwxyz'') c of
        Some l \<Rightarrow> l | None \<Rightarrow> c)"

definition toUpperCase :: "string \<Rightarrow> string" where
  "toUpperCase s = map toUpper_char s"

definition toLowerCase :: "string \<Rightarrow> string" where
  "toLowerCase s = map toLower_char s"

text \<open>\<^verbatim>\<open>s.includes(w)\<close>: \<open>w\<close> occurs in \<open>s\<close> as a contiguous piece.\<close>

fun str_includes :: "string \<Rightarrow> string \<Rightarrow> bool" where
  "str_includes [] w = (w = [])"
| "str_includes (c # cs) w = (if prefix w (c # cs) then True else str_includes cs w)"

text \<open>The class \<^verbatim>\<open>\w\<close> and the class \<^verbatim>\<open>[a-zA-Z0-9]\<close> of the two patterns.\<close>

definition is_alnum :: "char \<Rightarrow> bool" where
  "is_alnum c =
     (c \<in> set ''abcdefghijklmnopqrstuvwxyzABCDEFGHIJKLMNOPQRSTUVWXYZ0123456789'')"

definition is_word_char :: "char \<Rightarrow> bool" where
  "is_word_char c = (if is_alnum c then True else c = CHR ''_'')"

text \<open>
  \<^verbatim>\<open>content.match(/\b\w{3,}\b/g)\<close>: a match starts where a run of word characters
  starts, takes the whole run (the quantifier is greedy and the closing \<^verbatim>\<open>\b\<close> fails
  inside a run) and needs three characters, so the matches are the maximal runs of word
  characters of length at least 3, from left to right. \<open>scan_words\<close> cuts the text into
  its maximal runs; \<open>cur\<close> is the run being read.
\<close>

fun scan_words :: "string \<Rightarrow> string \<Rightarrow> string list" where
  "scan_words cur [] = (if cur = [] then [] else [cur])"
| "scan_words cur (c # cs) =
     (if is_word_char c then scan_words (cur @ [c]) cs
      else (if cur = [] then [] else [cur]) @ scan_words [] cs)"

definition match_words3 :: "string \<Rightarrow> string list" where
  "match_words3 s = filter (\<lambda>w. 3 \<le> length w) (scan_words [] s)"

text \<open>\<^verbatim>\<open>endpoint.replace(/[^a-zA-Z0-9]/g, '_')\<close>\<close>

definition replace_non_alnum :: "string \<Rightarrow> string" where
  "replace_non_alnum s = map (\<lambda>c. if is_alnum c then c else CHR ''_'') s"

subsection \<open>Conversion to text\<close>

text \<open>
  \<^verbatim>\<open>String(v)\<close>, which is also what a template literal \<^verbatim>\<open>`${v}`\<close> inserts: an array
  joins the texts of its elements with commas (\<^verbatim>\<open>null\<close> elements give the empty
  text). A plain object is converted by its \<^verbatim>\<open>toString\<close>: the inherited one gives
  \<^verbatim>\<open>[object Object]\<close>; an own field of that name hides it and, being data, cannot be
  called, after which \<^verbatim>\<open>valueOf\<close> (own and not callable, or inherited and returning the
  object) yields no primitive either, and the conversion throws a TypeError.
\<close>

fun toStr :: "json \<Rightarrow> error + string" where
  "toStr JNull = Inr ''null''"
| "toStr (JBool b) = Inr (if b then ''true'' else ''false'')"
| "toStr (JNum n) = Inr (show_int n)"
| "toStr (JStr s) = Inr s"
| "toStr (JArr xs) =
     bind_err (sequence_err (map (\<lambda>x. if x = JNull then Inr [] else toStr x) xs))
       (\<lambda>parts. Inr (intercalate '','' parts))"
| "toStr (JObj kvs) =
     (if ''toString'' \<in> set (map fst kvs) then Inl TypeError else Inr ''[object Object]'')"

definition toStr_opt :: "json option \<Rightarrow> error + string" where
  "toStr_opt v = (case v of None \<Rightarrow> Inr ''undefined'' | Some x \<Rightarrow> toStr x)"

text \<open>
  \<^verbatim>\<open>JSON.stringify(v)\<close> without indentation. A string is quoted; the quote, the
  backslash and the control characters are escaped.
\<close>

definition backslash :: char where
  "backslash = CHR 0x5C"

definition json_escapes :: "(char \<times> string) list" where
  "json_escapes =
     [(CHR 0x22, [backslash, CHR 0x22]), (backslash, [backslash, backslash]),
      (CHR 0x08, backslash # ''b''), (CHR 0x09, backslash # ''t''),
      (CHR 0x0A, backslash # ''n''), (CHR 0x0C, backslash # ''f''),
      (CHR 0x0D, backslash # ''r''),
      (CHR 0x00, backslash # ''u0000''), (CHR 0x01, backslash # ''u0001''),
      (CHR 0x02, backslash # ''u0002''), (CHR 0x03, backslash # ''u0003''),
      (CHR 0x04, backslash # ''u0004''), (CHR 0x05, backslash # ''u0005''),
      (CHR 0x06, backslash # ''u0006''), (CHR 0x07, backslash # ''u0007''),
      (CHR 0x0B, backslash # ''u000b''), (CHR 0x0E, backslash # ''u000e''),
      (CHR 0x0F, backslash # ''u000f''), (CHR 0x10, backslash # ''u0010''),
      (CHR 0x11, backslash # ''u0011''), (CHR 0x12, backslash # ''u0012''),
      (CHR 0x13, backslash # ''u0013''), (CHR 0x14, backslash # ''u0014''),
      (CHR 0x15, backslash # ''u0015''), (CHR 0x16, backslash # ''u0016''),
      (CHR 0x17, backslash # ''u0017''), (CHR 0x18, backslash # ''u0018''),
      (CHR 0x19, backslash # ''u0019''), (CHR 0x1A, backslash # ''u001a''),
      (CHR 0x1B, backslash # ''u001b''), (CHR 0x1C, backslash # ''u001c''),
      (CHR 0x1D, backslash # ''u001d''), (CHR 0x1E, backslash # ''u001e''),
      (CHR 0x1F, backslash # ''u001f'')]"

definition quote_json :: "string \<Rightarrow> string" where
  "quote_json s =
     CHR 0x22 # concat (map (\<lambda>c. case map_of json_escapes c of Some e \<Rightarrow> e | None \<Rightarrow> [c]) s)
       @ [CHR 0x22]"

fun JSON_stringify :: "json \<Rightarrow> string" where
  "JSON_stringify JNull = ''null''"
| "JSON_stringify (JBool b) = (if b then ''true'' else ''false'')"
| "JSON_stringify (JNum n) = show_int n"
| "JSON_stringify (JStr s) = quote_json s"
| "JSON_stringify (JArr xs) = ''['' @ intercalate '','' (map JSON_stringify xs) @ '']''"
| "JSON_stringify (JObj kvs) =
     ''{'' @ intercalate '','' (map (\<lambda>(k, v). quote_json k @ '':'' @ JSON_stringify v) kvs) @ ''}''"

subsection \<open>Properties\<close>

text \<open>
  \<^verbatim>\<open>Object.entries(v)\<close> for a value that is not \<^verbatim>\<open>null\<close>: the own properties of an
  object, the indexed elements of an array, the indexed characters of a string, nothing
  for a number or a boolean. On \<^verbatim>\<open>null\<close> it throws; every caller below checks that
  first.
\<close>

fun objectEntries :: "json \<Rightarrow> (string \<times> json) list" where
  "objectEntries (JObj kvs) = kvs"
| "objectEntries (JArr xs) = zip (map show_nat [0..<length xs]) xs"
| "objectEntries (JStr s) = zip (map show_nat [0..<length s]) (map (\<lambda>c. JStr [c]) s)"
| "objectEntries (JNum n) = []"
| "objectEntries (JBool b) = []"
| "objectEntries JNull = []"

text \<open>
  \<^verbatim>\<open>v.k\<close> for a value that is not \<^verbatim>\<open>null\<close> (on \<^verbatim>\<open>null\<close> the read throws, and every
  caller below checks that first). The names the code reads are own properties or
  \<^verbatim>\<open>length\<close>, none is inherited from a prototype.
\<close>

fun getProp :: "json \<Rightarrow> string \<Rightarrow> json option" where
  "getProp (JObj kvs) k = map_of kvs k"
| "getProp (JArr xs) k =
     (if k = ''length'' then Some (JNum (int (length xs))) else map_of (objectEntries (JArr xs)) k)"
| "getProp (JStr s) k =
     (if k = ''length'' then Some (JNum (int (length s))) else map_of (objectEntries (JStr s)) k)"
| "getProp (JNum n) k = None"
| "getProp (JBool b) k = None"
| "getProp JNull k = None"

text \<open>
  \<^verbatim>\<open>obj[key] = value\<close> on an object under construction, as the list of its own fields:
  \<open>setField\<close> overwrites the field or appends it. The key \<^verbatim>\<open>__proto__\<close> is no field of
  such an object: the assignment reaches the setter inherited from \<^verbatim>\<open>Object.prototype\<close>,
  which ignores a primitive value and takes \<^verbatim>\<open>null\<close> or an object as the new prototype;
  in both cases no own field is made.
\<close>

fun setField :: "(string \<times> json) list \<Rightarrow> string \<Rightarrow> json \<Rightarrow> (string \<times> json) list" where
  "setField [] k v = [(k, v)]"
| "setField ((k', v') # kvs) k v =
     (if k' = k then (k, v) # kvs else (k', v') # setField kvs k v)"

definition assign :: "(string \<times> json) list \<Rightarrow> string \<Rightarrow> json \<Rightarrow> (string \<times> json) list" where
  "assign fields k v = (if k = ''__proto__'' then fields else setField fields k v)"


section \<open>Input normalization\<close>

text \<open>
  \<^verbatim>\<open>JSON.parse\<close> belongs to the platform; it is the parameter \<open>JSON_parse\<close>, with
  \<open>None\<close> where it throws.

  \<open>apiFields\<close> is the test \<^verbatim>\<open>parsed.endpoint && parsed.method\<close>, with the two values
  when both are truthy.
\<close>

definition apiFields :: "json \<Rightarrow> (json \<times> json) option" where
  "apiFields parsed =
     (case getProp parsed ''endpoint'' of
        None \<Rightarrow> None
      | Some endpoint \<Rightarrow>
          (case getProp parsed ''method'' of
             None \<Rightarrow> None
           | Some method \<Rightarrow> if truthy endpoint \<and> truthy method then Some (endpoint, method) else None))"

text \<open>\<^verbatim>\<open>parsed.user || parsed.story || parsed.as || parsed.iWant || parsed.soThat\<close>\<close>

definition storyFields :: "json \<Rightarrow> bool" where
  "storyFields parsed =
     (truthy_opt (getProp parsed ''user'') \<or> truthy_opt (getProp parsed ''story'')
      \<or> truthy_opt (getProp parsed ''as'') \<or> truthy_opt (getProp parsed ''iWant'')
      \<or> truthy_opt (getProp parsed ''soThat''))"

text \<open>The parsing step: a string is parsed, and wrapped as \<^verbatim>\<open>{ raw: input }\<close> when
  parsing throws; any other input is taken as it is.\<close>

definition parseInput :: "(string \<Rightarrow> json option) \<Rightarrow> json \<Rightarrow> json" where
  "parseInput JSON_parse input =
     (case input of
        JStr s \<Rightarrow> (case JSON_parse s of Some v \<Rightarrow> v | None \<Rightarrow> JObj [(''raw'', input)])
      | _ \<Rightarrow> input)"

text \<open>The body of the \<^verbatim>\<open>try\<close> block. Reading a property of \<^verbatim>\<open>null\<close> throws: that is
  \<^verbatim>\<open>input.type\<close> for the input \<^verbatim>\<open>null\<close>, and \<^verbatim>\<open>parsed.endpoint\<close> for a text that parses
  to \<^verbatim>\<open>null\<close>.\<close>

definition normalizeInput_try :: "(string \<Rightarrow> json option) \<Rightarrow> json \<Rightarrow> error + json" where
  "normalizeInput_try JSON_parse input =
     (if input = JNull then Inl TypeError
      else if typeof input = ''object'' \<and> truthy_opt (getProp input ''type'') then Inr input
      else
        let parsed = parseInput JSON_parse input in
        if parsed = JNull then Inl TypeError
        else
          (case apiFields parsed of
             Some (endpoint, method) \<Rightarrow>
               Inr (JObj [(''type'', JStr ''api''),
                          (''endpoint'', endpoint),
                          (''method'', method),
                          (''request'',
                             js_or (getProp parsed ''request'')
                               (js_or (getProp parsed ''parameters'') (JObj []))),
                          (''response'', js_or (getProp parsed ''response'') (JObj []))])
           | None \<Rightarrow>
               if storyFields parsed then
                 Inr (JObj [(''type'', JStr ''user_story''),
                            (''content'',
                               if typeof parsed = ''string'' then parsed
                               else js_or (getProp parsed ''userStory'')
                                      (js_or (getProp parsed ''story'')
                                         (js_or (getProp parsed ''content'')
                                            (JStr (JSON_stringify parsed)))))])
               else
                 Inr (JObj [(''type'', JStr ''raw_text''),
                            (''content'',
                               if typeof parsed = ''string'' then parsed
                               else JStr (JSON_stringify parsed))])))"

text \<open>The whole function: what the \<^verbatim>\<open>try\<close> block throws is caught, and the
  \<^verbatim>\<open>catch\<close> block answers with \<^verbatim>\<open>String(input)\<close> as content.\<close>

definition normalizeInput :: "(string \<Rightarrow> json option) \<Rightarrow> json \<Rightarrow> error + json" where
  "normalizeInput JSON_parse input =
     (case normalizeInput_try JSON_parse input of
        Inr normalized \<Rightarrow> Inr normalized
      | Inl err \<Rightarrow>
          bind_err (toStr input) (\<lambda>text.
            Inr (JObj [(''type'', JStr ''raw_text''), (''content'', JStr text)])))"

section \<open>Base identifier\<close>

text \<open>
  \<^verbatim>\<open>input.endpoint.replace\<close> and \<^verbatim>\<open>content.match\<close> exist on strings only; on any other
  value the call throws a TypeError. The last line is the source's
  \<^verbatim>\<open>`TC_${keyWords.join('_')}` || 'TC_GENERIC'\<close>: the right operand is taken when the
  left one is the empty text.
\<close>

definition generateBaseId :: "json \<Rightarrow> error + string" where
  "generateBaseId input =
     (if input = JNull then Inl TypeError
      else if getProp input ''type'' = Some (JStr ''api'') then
        (case getProp input ''endpoint'' of
           Some (JStr endpoint) \<Rightarrow> Inr (''TC_'' @ toUpperCase (replace_non_alnum endpoint))
         | _ \<Rightarrow> Inl TypeError)
      else
        (case js_or (getProp input ''content'') (JStr []) of
           JStr content \<Rightarrow>
             let words = match_words3 content;
                 keyWords = map toUpperCase (take 3 words);
                 minted = ''TC_'' @ intercalate ''_'' keyWords
             in Inr (if minted \<noteq> [] then minted else ''TC_GENERIC'')
         | _ \<Rightarrow> Inl TypeError))"

section \<open>Helper functions\<close>

definition actionWords :: "string list" where
  "actionWords = [''login'', ''register'', ''create'', ''update'', ''delete'', ''submit'',
                  ''save'', ''search'', ''view'', ''access'']"

definition featureWords :: "string list" where
  "featureWords = [''authentication'', ''authorization'', ''validation'', ''processing'',
                   ''display'', ''storage'', ''communication'']"

text \<open>\<^verbatim>\<open>content.toLowerCase()\<close> throws unless \<open>content\<close> is a string.\<close>

definition extractMainAction :: "json option \<Rightarrow> error + string" where
  "extractMainAction content =
     (case content of
        Some (JStr c) \<Rightarrow>
          (case find (\<lambda>word. str_includes (toLowerCase c) word) actionWords of
             Some word \<Rightarrow> Inr word
           | None \<Rightarrow> Inr ''perform action'')
      | _ \<Rightarrow> Inl TypeError)"

definition extractMainFeature :: "json option \<Rightarrow> error + string" where
  "extractMainFeature content =
     (case content of
        Some (JStr c) \<Rightarrow>
          (case find (\<lambda>word. str_includes (toLowerCase c) word) featureWords of
             Some word \<Rightarrow> Inr word
           | None \<Rightarrow> Inr ''feature'')
      | _ \<Rightarrow> Inl TypeError)"

text \<open>The QA assumptions the data helpers read.\<close>

definition string_maxLength :: nat where
  "string_maxLength = 255"

definition number_min :: int where
  "number_min = 0"

definition number_max :: int where
  "number_max = 999999"

text \<open>Each helper runs over \<^verbatim>\<open>Object.entries(request)\<close> and fills a fresh object.\<close>

definition getInvalidTestData :: "json \<Rightarrow> error + json" where
  "getInvalidTestData request =
     (if request = JNull then Inl TypeError
      else Inr (JObj (foldl (\<lambda>invalid (key, val).
                  if typeof val = ''string'' then assign invalid key (JNum 123)
                  else if typeof val = ''number'' then assign invalid key (JStr ''not_a_number'')
                  else if typeof val = ''boolean'' then assign invalid key (JStr ''not_a_boolean'')
                  else invalid) [] (objectEntries request))))"

definition getBoundaryTestData :: "json \<Rightarrow> string \<Rightarrow> error + json" where
  "getBoundaryTestData request type =
     (if request = JNull then Inl TypeError
      else Inr (JObj (foldl (\<lambda>boundary (key, val).
                  if typeof val = ''string'' then
                    assign boundary key
                      (if type = ''max'' then JStr (replicate string_maxLength CHR ''a'')
                       else JStr ''a'')
                  else if typeof val = ''number'' then
                    assign boundary key (if type = ''max'' then JNum number_max else JNum number_min)
                  else boundary) [] (objectEntries request))))"

definition getEdgeTestData :: "json \<Rightarrow> string \<Rightarrow> error + json" where
  "getEdgeTestData request type =
     (if request = JNull then Inl TypeError
      else Inr (JObj (foldl (\<lambda>edge (key, val).
                  if type = ''null'' then assign edge key JNull
                  else if type = ''special'' then
                    assign edge key
                      (if typeof val = ''string'' then JStr ''!@#$%^&*()_+-=[]{}|;:,.<>?'' else val)
                  else edge) [] (objectEntries request))))"


section \<open>Test case synthesis\<close>

text \<open>A test case is the object literal of the source, its eight fields in their order.\<close>

definition newTestCase ::
  "string \<Rightarrow> string \<Rightarrow> string \<Rightarrow> string \<Rightarrow> string list \<Rightarrow> string \<Rightarrow> json \<Rightarrow> string \<Rightarrow> json" where
  "newTestCase tc_id title type precondition steps expected_result test_data priority =
     JObj [(''id'', JStr tc_id),
           (''title'', JStr title),
           (''type'', JStr type),
           (''precondition'', JStr precondition),
           (''steps'', JArr (map JStr steps)),
           (''expected_result'', JStr expected_result),
           (''test_data'', test_data),
           (''priority'', JStr priority)]"

text \<open>\<open>endpoint\<close> and \<open>method\<close> only occur inside template literals; they are the
  texts inserted there, and the first literal that inserts them throws when one of them has
  no text.\<close>

definition generateApiTestCases :: "json \<Rightarrow> string \<Rightarrow> error + json" where
  "generateApiTestCases apiInput baseId =
     (if apiInput = JNull then Inl TypeError
      else
        let request = js_or (getProp apiInput ''request'') (JObj []) in
        bind_err (toStr_opt (getProp apiInput ''method'')) (\<lambda>method.
        bind_err (toStr_opt (getProp apiInput ''endpoint'')) (\<lambda>endpoint.
        bind_err (getInvalidTestData request) (\<lambda>invalidData.
        bind_err (getBoundaryTestData request ''max'') (\<lambda>maxData.
        bind_err (getBoundaryTestData request ''min'') (\<lambda>minData.
        bind_err (getEdgeTestData request ''null'') (\<lambda>nullData.
        bind_err (getEdgeTestData request ''special'') (\<lambda>specialData.
        Inr (JObj
          [(''positive'', JArr
             [newTestCase (baseId @ ''_POS_001'')
                (method @ '' '' @ endpoint @ '' with valid request'')
                ''positive''
                (''API endpoint '' @ endpoint @ '' is available and accessible'')
                [''Prepare valid request data for '' @ endpoint,
                 ''Send '' @ method @ '' request to '' @ endpoint,
                 ''Verify response status is 200'',
                 ''Verify response structure matches expected format'']
                ''API returns 200 status with valid response data''
                request
                ''High'']),
           (''negative'', JArr
             [newTestCase (baseId @ ''_NEG_001'')
                (method @ '' '' @ endpoint @ '' with missing required fields'')
                ''negative''
                (''API endpoint '' @ endpoint @ '' is available'')
                [''Send '' @ method @ '' request to '' @ endpoint @ '' without required fields'',
                 ''Verify response status is 400'',
                 ''Verify error message indicates missing required fields'']
                ''API returns 400 status with validation error''
                (JObj [])
                ''High'',
              newTestCase (baseId @ ''_NEG_002'')
                (method @ '' '' @ endpoint @ '' with invalid data format'')
                ''negative''
                (''API endpoint '' @ endpoint @ '' is available'')
                [''Send '' @ method @ '' request to '' @ endpoint @ '' with invalid data types'',
                 ''Verify response status is 400'',
                 ''Verify error message indicates invalid format'']
                ''API returns 400 status with format validation error''
                invalidData
                ''Medium'']),
           (''boundary'', JArr
             [newTestCase (baseId @ ''_BND_001'')
                (method @ '' '' @ endpoint @ '' with maximum length values'')
                ''boundary''
                (''API endpoint '' @ endpoint @ '' is available'')
                [''Send '' @ method @ '' request to '' @ endpoint @ '' with max length string values'',
                 ''Verify response status is 200'',
                 ''Verify data is processed correctly'']
                ''API processes max length values successfully''
                maxData
                ''Medium'',
              newTestCase (baseId @ ''_BND_002'')
                (method @ '' '' @ endpoint @ '' with minimum length values'')
                ''boundary''
                (''API endpoint '' @ endpoint @ '' is available'')
                [''Send '' @ method @ '' request to '' @ endpoint @ '' with min length values'',
                 ''Verify response status is 200'',
                 ''Verify data is processed correctly'']
                ''API processes min length values successfully''
                minData
                ''Medium'']),
           (''edge'', JArr
             [newTestCase (baseId @ ''_EDGE_001'')
                (method @ '' '' @ endpoint @ '' with null values'')
                ''edge''
                (''API endpoint '' @ endpoint @ '' is available'')
                [''Send '' @ method @ '' request to '' @ endpoint
                   @ '' with null values for optional fields'',
                 ''Verify response status is 200'',
                 ''Verify null values are handled appropriately'']
                ''API handles null values without errors''
                nullData
                ''Low'',
              newTestCase (baseId @ ''_EDGE_002'')
                (method @ '' '' @ endpoint @ '' with special characters'')
                ''edge''
                (''API endpoint '' @ endpoint @ '' is available'')
                [''Send '' @ method @ '' request to '' @ endpoint @ '' with special characters'',
                 ''Verify response status is 200'',
                 ''Verify special characters are processed correctly'']
                ''API handles special characters appropriately''
                specialData
                ''Low''])])))))))))"

definition generateUserStoryTestCases :: "json \<Rightarrow> string \<Rightarrow> error + json" where
  "generateUserStoryTestCases storyInput baseId =
     (if storyInput = JNull then Inl TypeError
      else
        bind_err (extractMainAction (getProp storyInput ''content'')) (\<lambda>mainAction.
        Inr (JObj
          [(''positive'', JArr
             [newTestCase (baseId @ ''_POS_001'')
                (''Happy path - '' @ mainAction)
                ''positive''
                ''User has valid credentials and necessary permissions''
                [''Navigate to the relevant page'',
                 ''Perform '' @ mainAction @ '' with valid data'',
                 ''Verify the action completes successfully'',
                 ''Verify expected outcome is achieved'']
                (''User can '' @ mainAction @ '' and see expected result'')
                (JObj [(''scenario'', JStr ''happy_path'')])
                ''High'']),
           (''negative'', JArr
             [newTestCase (baseId @ ''_NEG_001'')
                (''Invalid input - '' @ mainAction)
                ''negative''
                ''User is on the relevant page''
                [''Enter invalid or missing required information'',
                 ''Attempt to complete the action'',
                 ''Verify validation error messages appear'',
                 ''Verify action cannot be completed'']
                ''System displays appropriate error messages and prevents invalid action''
                (JObj [(''scenario'', JStr ''invalid_input'')])
                ''High'']),
           (''boundary'', JArr
             [newTestCase (baseId @ ''_BND_001'')
                (''Maximum limits - '' @ mainAction)
                ''boundary''
                ''User is on the relevant page''
                [''Enter data at maximum allowed limits'',
                 ''Attempt to complete the action'',
                 ''Verify system handles maximum limits correctly'',
                 ''Verify action completes or shows appropriate limit message'']
                ''System handles maximum boundary values appropriately''
                (JObj [(''scenario'', JStr ''max_limits'')])
                ''Medium'']),
           (''edge'', JArr
             [newTestCase (baseId @ ''_EDGE_001'')
                (''Concurrent access - '' @ mainAction)
                ''edge''
                ''Multiple users have access to the system''
                [''Multiple users attempt the same action simultaneously'',
                 ''Verify system handles concurrent requests'',
                 ''Verify data integrity is maintained'',
                 ''Verify all users receive appropriate responses'']
                ''System maintains data integrity under concurrent access''
                (JObj [(''scenario'', JStr ''concurrent_access'')])
                ''Low''])])))"

definition generateRawTextTestCases :: "json \<Rightarrow> string \<Rightarrow> error + json" where
  "generateRawTextTestCases textInput baseId =
     (if textInput = JNull then Inl TypeError
      else
        bind_err (extractMainFeature (getProp textInput ''content'')) (\<lambda>mainFeature.
        Inr (JObj
          [(''positive'', JArr
             [newTestCase (baseId @ ''_POS_001'')
                (''Basic functionality - '' @ mainFeature)
                ''positive''
                ''System is available and user has necessary access''
                [''Access the feature/function'',
                 ''Perform basic operation with valid inputs'',
                 ''Verify the operation completes successfully'',
                 ''Verify expected output is displayed'']
                ''Feature works correctly with valid inputs''
                (JObj [(''scenario'', JStr ''basic_functionality'')])
                ''High'']),
           (''negative'', JArr
             [newTestCase (baseId @ ''_NEG_001'')
                (''Error handling - '' @ mainFeature)
                ''negative''
                ''User is accessing the feature''
                [''Provide invalid or missing inputs'',
                 ''Attempt to execute the operation'',
                 ''Verify appropriate error messages are shown'',
                 ''Verify system remains stable'']
                ''System handles errors gracefully with clear error messages''
                (JObj [(''scenario'', JStr ''error_handling'')])
                ''High'']),
           (''boundary'', JArr
             [newTestCase (baseId @ ''_BND_001'')
                (''Limit testing - '' @ mainFeature)
                ''boundary''
                ''User is accessing the feature''
                [''Test with minimum allowed values'',
                 ''Test with maximum allowed values'',
                 ''Verify system behavior at boundaries'',
                 ''Verify no crashes or unexpected behavior'']
                ''System behaves correctly at boundary values''
                (JObj [(''scenario'', JStr ''boundary_testing'')])
                ''Medium'']),
           (''edge'', JArr
             [newTestCase (baseId @ ''_EDGE_001'')
                (''Stress testing - '' @ mainFeature)
                ''edge''
                ''System is under normal load''
                [''Execute multiple operations rapidly'',
                 ''Verify system response time'',
                 ''Verify system stability under load'',
                 ''Verify data integrity is maintained'']
                ''System maintains performance and stability under stress''
                (JObj [(''scenario'', JStr ''stress_testing'')])
                ''Low''])])))"

text \<open>The dispatch on \<^verbatim>\<open>normalizedInput.type\<close>; the default branch throws
  \<^verbatim>\<open>Unsupported input type: ${normalizedInput.type}\<close>, carried here with the inserted
  type name.\<close>

definition generateTestCases :: "json \<Rightarrow> error + json" where
  "generateTestCases normalizedInput =
     bind_err (generateBaseId normalizedInput) (\<lambda>baseId.
       if getProp normalizedInput ''type'' = Some (JStr ''api'') then
         generateApiTestCases normalizedInput baseId
       else if getProp normalizedInput ''type'' = Some (JStr ''user_story'') then
         generateUserStoryTestCases normalizedInput baseId
       else if getProp normalizedInput ''type'' = Some (JStr ''raw_text'') then
         generateRawTextTestCases normalizedInput baseId
       else
         bind_err (toStr_opt (getProp normalizedInput ''type'')) (\<lambda>typeName.
           Inl (UnsupportedInputType typeName)))"


section \<open>Output validation\<close>

record validation =
  isValid :: bool
  errors :: "string list"

definition requiredSections :: "string list" where
  "requiredSections = [''positive'', ''negative'', ''boundary'', ''edge'']"

definition requiredFields :: "string list" where
  "requiredFields = [''id'', ''title'', ''type'', ''precondition'', ''steps'',
                     ''expected_result'', ''test_data'', ''priority'']"

definition lessThan3Error :: "string \<Rightarrow> string" where
  "lessThan3Error section = ''Section '' @ section @ '' has less than 3 test cases''"

definition missingFieldError :: "string \<Rightarrow> nat \<Rightarrow> string \<Rightarrow> string" where
  "missingFieldError section index field =
     ''Section '' @ section @ '', case '' @ show_nat (index + 1) @ '': Missing field '' @ field"

definition emptyStepsError :: "string \<Rightarrow> nat \<Rightarrow> string" where
  "emptyStepsError section index =
     ''Section '' @ section @ '', case '' @ show_nat (index + 1) @ '': Steps array is empty''"

text \<open>The first loop, for one section: \<^verbatim>\<open>testCases[section]\<close> missing or not an array,
  else fewer than 3 elements.\<close>

definition sectionErrors :: "json \<Rightarrow> string \<Rightarrow> string list" where
  "sectionErrors testCases section =
     (case getProp testCases section of
        Some (JArr cases) \<Rightarrow> if length cases < 3 then [lessThan3Error section] else []
      | _ \<Rightarrow> [''Missing or invalid section: '' @ section])"

text \<open>\<^verbatim>\<open>field in testCase\<close> throws unless the right operand is an object (arrays are
  objects); the fields asked for are never inherited ones.\<close>

fun hasProperty :: "string \<Rightarrow> json \<Rightarrow> error + bool" where
  "hasProperty field (JObj kvs) = Inr (field \<in> set (map fst kvs))"
| "hasProperty field (JArr xs) =
     Inr (field \<in> set (''length'' # map show_nat [0..<length xs]))"
| "hasProperty field JNull = Inl TypeError"
| "hasProperty field (JBool b) = Inl TypeError"
| "hasProperty field (JNum n) = Inl TypeError"
| "hasProperty field (JStr s) = Inl TypeError"

text \<open>\<^verbatim>\<open>!testCase.steps || testCase.steps.length === 0\<close>\<close>

definition stepsEmpty :: "json \<Rightarrow> bool" where
  "stepsEmpty testCase =
     (case getProp testCase ''steps'' of
        None \<Rightarrow> True
      | Some steps \<Rightarrow> if truthy steps then getProp steps ''length'' = Some (JNum 0) else True)"

fun missingFields :: "string \<Rightarrow> nat \<Rightarrow> json \<Rightarrow> string list \<Rightarrow> error + string list" where
  "missingFields section index testCase [] = Inr []"
| "missingFields section index testCase (field # fieldsLeft) =
     bind_err (hasProperty field testCase) (\<lambda>present.
     bind_err (missingFields section index testCase fieldsLeft) (\<lambda>rest.
       Inr ((if present then [] else [missingFieldError section index field]) @ rest)))"

definition caseErrors :: "string \<Rightarrow> nat \<Rightarrow> json \<Rightarrow> error + string list" where
  "caseErrors section index testCase =
     bind_err (missingFields section index testCase requiredFields) (\<lambda>missing.
       Inr (missing @ (if stepsEmpty testCase then [emptyStepsError section index] else [])))"

text \<open>\<^verbatim>\<open>for (const [index, testCase] of cases.entries())\<close>, from \<open>index\<close> on.\<close>

fun casesErrors :: "string \<Rightarrow> nat \<Rightarrow> json list \<Rightarrow> error + string list" where
  "casesErrors section index [] = Inr []"
| "casesErrors section index (testCase # cases) =
     bind_err (caseErrors section index testCase) (\<lambda>here.
     bind_err (casesErrors section (index + 1) cases) (\<lambda>rest. Inr (here @ rest)))"

text \<open>\<^verbatim>\<open>for (const [section, cases] of Object.entries(testCases))\<close>\<close>

fun entriesErrors :: "(string \<times> json) list \<Rightarrow> error + string list" where
  "entriesErrors [] = Inr []"
| "entriesErrors ((section, cases) # entries) =
     bind_err (case cases of JArr cs \<Rightarrow> casesErrors section 0 cs | _ \<Rightarrow> Inr []) (\<lambda>here.
     bind_err (entriesErrors entries) (\<lambda>rest. Inr (here @ rest)))"

definition validateOutput :: "json \<Rightarrow> error + validation" where
  "validateOutput testCases =
     (if testCases = JNull then Inl TypeError
      else
        bind_err (entriesErrors (objectEntries testCases)) (\<lambda>caseErrs.
          let errs = concat (map (sectionErrors testCases) requiredSections) @ caseErrs
          in Inr \<lparr>isValid = (length errs = 0), errors = errs\<rparr>))"

section \<open>The tool call\<close>

text \<open>
  The handler of \<^verbatim>\<open>generate_test_cases\<close>: normalize, generate, validate, and answer with
  the object that is serialized. \<open>Inl\<close> is the \<^verbatim>\<open>catch\<close> branch, which answers
  \<^verbatim>\<open>success: false\<close>. \<^verbatim>\<open>x.length\<close> throws on \<^verbatim>\<open>undefined\<close> and \<^verbatim>\<open>null\<close>.
\<close>

record summary =
  total_cases :: nat
  by_section :: "(string \<times> json option) list"

record tool_result =
  success :: bool
  input_type :: "json option"
  validation :: validation
  test_cases :: json
  summary :: summary

definition lengthOf :: "json option \<Rightarrow> error + json option" where
  "lengthOf v =
     (case v of
        None \<Rightarrow> Inl TypeError
      | Some x \<Rightarrow> if x = JNull then Inl TypeError else Inr (getProp x ''length''))"

text \<open>\<^verbatim>\<open>Object.values(testCases).flat().length\<close>: an array counts its elements, any
  other value counts once.\<close>

definition flatLength :: "json \<Rightarrow> nat" where
  "flatLength testCases =
     sum_list (map (\<lambda>(section, cases). case cases of JArr cs \<Rightarrow> length cs | _ \<Rightarrow> 1)
       (objectEntries testCases))"

definition generate_test_cases :: "(string \<Rightarrow> json option) \<Rightarrow> json \<Rightarrow> error + tool_result" where
  "generate_test_cases JSON_parse input =
     (bind_err (normalizeInput JSON_parse input) (\<lambda>normalizedInput.
      bind_err (generateTestCases normalizedInput) (\<lambda>testCases.
      bind_err (validateOutput testCases) (\<lambda>validation.
      bind_err (lengthOf (getProp testCases ''positive'')) (\<lambda>positive.
      bind_err (lengthOf (getProp testCases ''negative'')) (\<lambda>negative.
      bind_err (lengthOf (getProp testCases ''boundary'')) (\<lambda>boundary.
      bind_err (lengthOf (getProp testCases ''edge'')) (\<lambda>edge.
        Inr \<lparr>success = True,
             input_type = getProp normalizedInput ''type'',
             validation = validation,
             test_cases = testCases,
             summary = \<lparr>total_cases = flatLength testCases,
                        by_section = [(''positive'', positive), (''negative'', negative),
                                      (''boundary'', boundary), (''edge'', edge)]\<rparr>\<rparr>))))))))"


section \<open>Inputs and outputs the properties speak about\<close>

text \<open>
  A stand-in for \<^verbatim>\<open>JSON.parse\<close> that throws on every text. It is used to run the
  pipeline on inputs that are objects (on them the parser is not called) and on texts
  that are not JSON.
\<close>

definition unparsable :: "string \<Rightarrow> json option" where
  "unparsable text = None"

text \<open>The two inputs of the concrete scenarios.\<close>

definition loginApiSpec :: json where
  "loginApiSpec =
     JObj [(''endpoint'', JStr ''/login''), (''method'', JStr ''POST''),
           (''request'', JObj [(''username'', JStr ''string''), (''password'', JStr ''string'')])]"

definition userStoryText :: string where
  "userStoryText = ''As a user I want to login so that I can access dashboard''"

text \<open>
  A value is an object for \<^verbatim>\<open>in\<close> when it is a plain object or an array. A test case
  set, for the validator, is an object whose array-valued sections hold objects only.
\<close>

fun isObject :: "json \<Rightarrow> bool" where
  "isObject (JObj kvs) = True"
| "isObject (JArr xs) = True"
| "isObject JNull = False"
| "isObject (JBool b) = False"
| "isObject (JNum n) = False"
| "isObject (JStr s) = False"

definition caseObjects :: "(string \<times> json) list \<Rightarrow> bool" where
  "caseObjects entries =
     list_all (\<lambda>(section, cases). case cases of JArr cs \<Rightarrow> list_all isObject cs | _ \<Rightarrow> True) entries"


text \<open>
  A test case is complete when it is an object with the eight required fields
  \<^verbatim>\<open>id, title, type, precondition, steps, expected_result, test_data, priority\<close> and its
  \<^verbatim>\<open>steps\<close> are a non-empty array. \<open>allCases\<close> lists the cases of all sections.
\<close>

definition completeCase :: "json \<Rightarrow> bool" where
  "completeCase c =
     (case c of
        JObj fs \<Rightarrow>
          list_all (\<lambda>field. field \<in> set (map fst fs))
            [''id'', ''title'', ''type'', ''precondition'', ''steps'', ''expected_result'',
             ''test_data'', ''priority'']
          \<and> (case map_of fs ''steps'' of Some (JArr (s # ss)) \<Rightarrow> True | _ \<Rightarrow> False)
      | _ \<Rightarrow> False)"

definition allCases :: "json \<Rightarrow> json list" where
  "allCases testCases =
     concat (map (\<lambda>(section, cases). case cases of JArr cs \<Rightarrow> cs | _ \<Rightarrow> [])
       (objectEntries testCases))"


section \<open>Building objects field by field\<close>

lemma map_of_setField:
  "map_of (setField acc k v) k' = (if k' = k then Some v else map_of acc k')"
  by (induction acc k v rule: setField.induct) auto

lemma map_of_assign:
  "map_of (assign acc k v) k' = (if k' = k \<and> k \<noteq> ''__proto__'' then Some v else map_of acc k')"
  by (simp add: assign_def map_of_setField)

lemma foldl_assign_absent:
  assumes step: "\<And>acc key val k'. k' \<noteq> key \<Longrightarrow> map_of (g acc (key, val)) k' = map_of acc k'"
    and "k \<notin> fst ` set R"
  shows "map_of (foldl g acc R) k = map_of acc k"
  using assms(2)
proof (induction R arbitrary: acc)
  case Nil
  then show ?case by simp
next
  case (Cons e R)
  obtain key val where e: "e = (key, val)" by (cases e)
  from Cons.prems e have "k \<noteq> key" and "k \<notin> fst ` set R" by auto
  with Cons.IH [of "g acc e"] step [of k key acc val] e show ?case by simp
qed

lemma foldl_assign_present:
  assumes step: "\<And>acc key val k'. k' \<noteq> key \<Longrightarrow> map_of (g acc (key, val)) k' = map_of acc k'"
    and hit: "\<And>acc val. map_of (g acc (k, val)) k = (case f val of Some w \<Rightarrow> Some w | None \<Rightarrow> map_of acc k)"
    and "distinct (map fst R)" and "(k, v) \<in> set R"
  shows "map_of (foldl g acc R) k = (case f v of Some w \<Rightarrow> Some w | None \<Rightarrow> map_of acc k)"
  using assms(3,4)
proof (induction R arbitrary: acc)
  case Nil
  then show ?case by simp
next
  case (Cons e R)
  obtain key val where e: "e = (key, val)" by (cases e)
  show ?case
  proof (cases "(k, v) = e")
    case True
    with Cons.prems e have "k \<notin> fst ` set R" by auto
    then have "map_of (foldl g (g acc e) R) k = map_of (g acc e) k"
      using step by (intro foldl_assign_absent) auto
    with True hit [of acc v] show ?thesis by simp
  next
    case False
    with Cons.prems e have in_R: "(k, v) \<in> set R" and dist: "distinct (map fst R)" and "k \<noteq> key"
      by (auto simp: image_iff)
    from Cons.IH [OF dist in_R, of "g acc e"] step [OF \<open>k \<noteq> key\<close>, of acc val] e
    show ?thesis by (simp split: option.splits)
  qed
qed


section \<open>The validator on sets of case objects\<close>

lemma hasProperty_total: "isObject tc \<Longrightarrow> \<exists>b. hasProperty F tc = Inr b"
  by (cases tc) simp_all

lemma missingFields_total:
  "isObject tc \<Longrightarrow> \<exists>ms. missingFields S i tc flds = Inr ms"
proof (induction flds)
  case Nil
  then show ?case by simp
next
  case (Cons f flds)
  from Cons obtain ms where "missingFields S i tc flds = Inr ms" by blast
  moreover from Cons.prems obtain b where "hasProperty f tc = Inr b"
    using hasProperty_total by blast
  ultimately show ?case by (simp add: bind_err_def)
qed

lemma missingFields_mem:
  "missingFields S i (JObj fs) flds = Inr ms \<Longrightarrow> F \<in> set flds \<Longrightarrow> F \<notin> fst ` set fs
     \<Longrightarrow> missingFieldError S i F \<in> set ms"
proof (induction flds arbitrary: ms)
  case Nil
  then show ?case by simp
next
  case (Cons f flds)
  obtain rest where rest: "missingFields S i (JObj fs) flds = Inr rest"
    using missingFields_total [of "JObj fs" S i flds] by auto
  with Cons.prems(1) have ms: "ms = (if f \<in> fst ` set fs then [] else [missingFieldError S i f]) @ rest"
    by (auto simp: bind_err_def)
  show ?case
  proof (cases "F = f")
    case True
    with ms Cons.prems(3) show ?thesis by simp
  next
    case False
    with Cons.prems have "F \<in> set flds" by simp
    from Cons.IH [OF rest this Cons.prems(3)] ms show ?thesis by simp
  qed
qed

lemma caseErrors_total: "isObject tc \<Longrightarrow> \<exists>es. caseErrors S i tc = Inr es"
  using missingFields_total [of tc S i requiredFields]
  by (auto simp: caseErrors_def bind_err_def)

lemma caseErrors_mem:
  "caseErrors S i (JObj fs) = Inr es \<Longrightarrow> F \<in> set requiredFields \<Longrightarrow> F \<notin> fst ` set fs
     \<Longrightarrow> missingFieldError S i F \<in> set es"
  using missingFields_total [of "JObj fs" S i requiredFields] missingFields_mem [of S i fs requiredFields _ F]
  by (auto simp: caseErrors_def bind_err_def)

lemma casesErrors_total:
  "list_all isObject cs \<Longrightarrow> \<exists>es. casesErrors S k cs = Inr es"
proof (induction cs arbitrary: k)
  case Nil
  then show ?case by simp
next
  case (Cons c cs)
  from Cons.prems obtain here where "caseErrors S k c = Inr here"
    using caseErrors_total [of c S k] by auto
  moreover from Cons obtain rest where "casesErrors S (k + 1) cs = Inr rest" by fastforce
  ultimately show ?case by (simp add: bind_err_def)
qed

lemma casesErrors_mem:
  "casesErrors S k cs = Inr es \<Longrightarrow> list_all isObject cs \<Longrightarrow> i < length cs \<Longrightarrow> cs ! i = JObj fs
     \<Longrightarrow> F \<in> set requiredFields \<Longrightarrow> F \<notin> fst ` set fs
     \<Longrightarrow> missingFieldError S (k + i) F \<in> set es"
proof (induction cs arbitrary: k i es)
  case Nil
  then show ?case by simp
next
  case (Cons c cs)
  from Cons.prems(2) obtain here where here: "caseErrors S k c = Inr here"
    using caseErrors_total [of c S k] by auto
  from Cons.prems(2) obtain rest where rest: "casesErrors S (k + 1) cs = Inr rest"
    using casesErrors_total [of cs S "k + 1"] by auto
  from Cons.prems(1) here rest have es: "es = here @ rest"
    by (simp add: bind_err_def)
  show ?case
  proof (cases i)
    case 0
    with Cons.prems(4) have "c = JObj fs" by simp
    with here caseErrors_mem [of S k fs here F] Cons.prems(5,6) es 0 show ?thesis by simp
  next
    case (Suc j)
    with Cons.prems have "j < length cs" "cs ! j = JObj fs" "list_all isObject cs" by simp_all
    from Cons.IH [OF rest this(3) this(1) this(2) Cons.prems(5,6)] es Suc show ?thesis by simp
  qed
qed

lemma entriesErrors_total:
  "caseObjects entries \<Longrightarrow> \<exists>es. entriesErrors entries = Inr es"
proof (induction entries)
  case Nil
  then show ?case by simp
next
  case (Cons e entries)
  obtain sname sval where e: "e = (sname, sval)" by (cases e)
  from Cons.prems e have "\<exists>here. (case sval of JArr cs \<Rightarrow> casesErrors sname 0 cs | _ \<Rightarrow> Inr []) = Inr here"
    using casesErrors_total by (cases sval) (auto simp: caseObjects_def)
  moreover from Cons have "\<exists>rest. entriesErrors entries = Inr rest"
    by (simp add: caseObjects_def)
  ultimately show ?case using e by (auto simp: bind_err_def)
qed

lemma entriesErrors_mem:
  "entriesErrors entries = Inr es \<Longrightarrow> caseObjects entries \<Longrightarrow> (S, JArr cs) \<in> set entries
     \<Longrightarrow> i < length cs \<Longrightarrow> cs ! i = JObj fs \<Longrightarrow> F \<in> set requiredFields \<Longrightarrow> F \<notin> fst ` set fs
     \<Longrightarrow> missingFieldError S i F \<in> set es"
proof (induction entries arbitrary: es)
  case Nil
  then show ?case by simp
next
  case (Cons e entries)
  obtain sname sval where e: "e = (sname, sval)" by (cases e)
  from Cons.prems(2) have wf: "caseObjects entries" by (simp add: caseObjects_def)
  then obtain rest where rest: "entriesErrors entries = Inr rest"
    using entriesErrors_total by blast
  from Cons.prems(2) e
  have "\<exists>here. (case sval of JArr cs \<Rightarrow> casesErrors sname 0 cs | _ \<Rightarrow> Inr []) = Inr here"
    using casesErrors_total by (cases sval) (auto simp: caseObjects_def)
  then obtain here
    where here: "(case sval of JArr cs \<Rightarrow> casesErrors sname 0 cs | _ \<Rightarrow> Inr []) = Inr here"
    by blast
  from Cons.prems(1) e here rest have es: "es = here @ rest"
    by (simp add: bind_err_def)
  show ?case
  proof (cases "(S, JArr cs) = e")
    case True
    with e here have "casesErrors S 0 cs = Inr here" by auto
    moreover from True Cons.prems(2) have "list_all isObject cs" by (auto simp: caseObjects_def)
    ultimately have "missingFieldError S (0 + i) F \<in> set here"
      using Cons.prems(4-7) by (intro casesErrors_mem)
    with es show ?thesis by simp
  next
    case False
    with Cons.prems(3) have "(S, JArr cs) \<in> set entries" by simp
    from Cons.IH [OF rest wf this Cons.prems(4-7)] es show ?thesis by simp
  qed
qed



section \<open>Validator completeness\<close>

text \<open>
  Claim C8. For every test case set (an object whose array-valued sections hold case
  objects) in which the case at index \<open>i\<close> of section \<open>S\<close> lacks the required field
  \<open>F\<close>, \<open>validateOutput\<close> returns, with \<open>isValid\<close> false and with the error text
  \<^verbatim>\<open>Section S, case i+1: Missing field F\<close> in its error list; and whatever
  \<open>validateOutput\<close> returns, \<open>isValid\<close> holds exactly when the error list is empty.
\<close>

theorem validateOutput_reports_missing_field:
  assumes "caseObjects entries" and "(S, JArr cs) \<in> set entries" and "i < length cs"
    and "cs ! i = JObj fs" and "F \<in> set requiredFields" and "F \<notin> fst ` set fs"
  shows "(\<exists>v. validateOutput (JObj entries) = Inr v \<and> isValid v = False
            \<and> ''Section '' @ S @ '', case '' @ show_nat (i + 1) @ '': Missing field '' @ F
                 \<in> set (errors v))
         \<and> (\<forall>testCases w. validateOutput testCases = Inr w \<longrightarrow> (isValid w \<longleftrightarrow> errors w = []))"
proof
  from assms(1) obtain es where es: "entriesErrors entries = Inr es"
    using entriesErrors_total by blast
  from entriesErrors_mem [OF es assms] have "missingFieldError S i F \<in> set es" .
  with es show "\<exists>v. validateOutput (JObj entries) = Inr v \<and> isValid v = False
            \<and> ''Section '' @ S @ '', case '' @ show_nat (i + 1) @ '': Missing field '' @ F
                 \<in> set (errors v)"
    by (auto simp: validateOutput_def bind_err_def Let_def missingFieldError_def)
next
  show "\<forall>testCases w. validateOutput testCases = Inr w \<longrightarrow> (isValid w \<longleftrightarrow> errors w = [])"
    by (auto simp: validateOutput_def bind_err_def Let_def split: if_splits sum.splits)
qed

theorem validateOutput_reports_missing_field_witness:
  "\<exists>v. validateOutput
           (JObj [(''positive'', JArr [JObj [(''id'', JStr ''TC_X_POS_001'')]])]) = Inr v
        \<and> isValid v = False
        \<and> ''Section positive, case 1: Missing field title'' \<in> set (errors v)
        \<and> (isValid v \<longleftrightarrow> errors v = [])"
  using validateOutput_reports_missing_field
    [of "[(''positive'', JArr [JObj [(''id'', JStr ''TC_X_POS_001'')]])]" "''positive''"
        "[JObj [(''id'', JStr ''TC_X_POS_001'')]]" 0 "[(''id'', JStr ''TC_X_POS_001'')]" "''title''"]
  by (auto simp: caseObjects_def requiredFields_def show_nat.simps digit_char_def)


section \<open>Derived request data\<close>

lemma getInvalidTestData_lookup:
  assumes "distinct (map fst R)" and "(k, v) \<in> set R" and "k \<noteq> ''__proto__''"
  shows "\<exists>r. getInvalidTestData (JObj R) = Inr (JObj r) \<and>
     map_of r k = (if typeof v = ''string'' then Some (JNum 123)
                   else if typeof v = ''number'' then Some (JStr ''not_a_number'')
                   else if typeof v = ''boolean'' then Some (JStr ''not_a_boolean'')
                   else None)"
proof -
  let ?f = "\<lambda>val. if typeof val = ''string'' then Some (JNum 123)
                   else if typeof val = ''number'' then Some (JStr ''not_a_number'')
                   else if typeof val = ''boolean'' then Some (JStr ''not_a_boolean'')
                   else None"
  let ?g = "\<lambda>invalid (key, val).
                  if typeof val = ''string'' then assign invalid key (JNum 123)
                  else if typeof val = ''number'' then assign invalid key (JStr ''not_a_number'')
                  else if typeof val = ''boolean'' then assign invalid key (JStr ''not_a_boolean'')
                  else invalid"
  have "map_of (foldl ?g [] R) k = (case ?f v of Some w \<Rightarrow> Some w | None \<Rightarrow> map_of [] k)"
    using assms by (intro foldl_assign_present) (auto simp: map_of_assign)
  then show ?thesis
    by (simp add: getInvalidTestData_def)
qed

lemma getBoundaryTestData_lookup:
  assumes "distinct (map fst R)" and "(k, v) \<in> set R" and "k \<noteq> ''__proto__''"
  shows "\<exists>r. getBoundaryTestData (JObj R) type = Inr (JObj r) \<and>
     map_of r k =
       (if typeof v = ''string'' then
          Some (if type = ''max'' then JStr (replicate string_maxLength CHR ''a'') else JStr ''a'')
        else if typeof v = ''number'' then
          Some (if type = ''max'' then JNum number_max else JNum number_min)
        else None)"
proof -
  let ?f = "\<lambda>val. if typeof val = ''string'' then
          Some (if type = ''max'' then JStr (replicate string_maxLength CHR ''a'') else JStr ''a'')
        else if typeof val = ''number'' then
          Some (if type = ''max'' then JNum number_max else JNum number_min)
        else None"
  let ?g = "\<lambda>boundary (key, val).
                  if typeof val = ''string'' then
                    assign boundary key
                      (if type = ''max'' then JStr (replicate string_maxLength CHR ''a'')
                       else JStr ''a'')
                  else if typeof val = ''number'' then
                    assign boundary key (if type = ''max'' then JNum number_max else JNum number_min)
                  else boundary"
  have "map_of (foldl ?g [] R) k = (case ?f v of Some w \<Rightarrow> Some w | None \<Rightarrow> map_of [] k)"
    using assms by (intro foldl_assign_present) (auto simp: map_of_assign)
  then show ?thesis
    by (simp add: getBoundaryTestData_def)
qed

text \<open>
  Claim C5, as the code has it. For every request object (its keys distinct) and every
  field of it that is not named \<^verbatim>\<open>__proto__\<close>, in the object \<open>getInvalidTestData\<close>
  returns a field that held a string holds the number 123, a field that held a number
  holds the text \<^verbatim>\<open>not_a_number\<close>, a field that held a boolean holds the text
  \<^verbatim>\<open>not_a_boolean\<close>, so that the runtime type of each of them differs from the original
  one, and a field of any other type (\<^verbatim>\<open>null\<close>, array, object) is absent.
\<close>

theorem getInvalidTestData_inverts_or_drops:
  assumes "distinct (map fst R)" and "(k, v) \<in> set R" and "k \<noteq> ''__proto__''"
  shows "\<exists>fields. getInvalidTestData (JObj R) = Inr (JObj fields)
           \<and> (typeof v = ''string'' \<longrightarrow> map_of fields k = Some (JNum 123))
           \<and> (typeof v = ''number'' \<longrightarrow> map_of fields k = Some (JStr ''not_a_number''))
           \<and> (typeof v = ''boolean'' \<longrightarrow> map_of fields k = Some (JStr ''not_a_boolean''))
           \<and> (typeof v = ''object'' \<longrightarrow> map_of fields k = None)
           \<and> (\<forall>w. map_of fields k = Some w \<longrightarrow> typeof w \<noteq> typeof v)"
proof -
  from getInvalidTestData_lookup [OF assms] obtain fields
    where "getInvalidTestData (JObj R) = Inr (JObj fields)"
      and "map_of fields k = (if typeof v = ''string'' then Some (JNum 123)
                   else if typeof v = ''number'' then Some (JStr ''not_a_number'')
                   else if typeof v = ''boolean'' then Some (JStr ''not_a_boolean'')
                   else None)"
    by blast
  then show ?thesis by (cases v) auto
qed

theorem getInvalidTestData_inverts_or_drops_witness:
  "\<exists>fields. getInvalidTestData
          (JObj [(''name'', JStr ''x''), (''age'', JNum 5), (''ok'', JBool True),
                 (''tags'', JArr [])]) = Inr (JObj fields)
       \<and> map_of fields ''name'' = Some (JNum 123)
       \<and> map_of fields ''age'' = Some (JStr ''not_a_number'')
       \<and> map_of fields ''ok'' = Some (JStr ''not_a_boolean'')
       \<and> map_of fields ''tags'' = None"
  using
    getInvalidTestData_inverts_or_drops
      [of "[(''name'', JStr ''x''), (''age'', JNum 5), (''ok'', JBool True), (''tags'', JArr [])]"
          "''name''" "JStr ''x''"]
    getInvalidTestData_inverts_or_drops
      [of "[(''name'', JStr ''x''), (''age'', JNum 5), (''ok'', JBool True), (''tags'', JArr [])]"
          "''age''" "JNum 5"]
    getInvalidTestData_inverts_or_drops
      [of "[(''name'', JStr ''x''), (''age'', JNum 5), (''ok'', JBool True), (''tags'', JArr [])]"
          "''ok''" "JBool True"]
    getInvalidTestData_inverts_or_drops
      [of "[(''name'', JStr ''x''), (''age'', JNum 5), (''ok'', JBool True), (''tags'', JArr [])]"
          "''tags''" "JArr []"]
  by auto

text \<open>
  Claim C5 as stated says that a field of another type is left untouched in the returned
  object. The request \<^verbatim>\<open>{name: "x", tags: []}\<close> has the field \<^verbatim>\<open>tags\<close>; the returned
  object is \<^verbatim>\<open>{name: 123}\<close>, without it.
\<close>

theorem getInvalidTestData_drops_other_fields:
  "getInvalidTestData (JObj [(''name'', JStr ''x''), (''tags'', JArr [])])
     = Inr (JObj [(''name'', JNum 123)])
   \<and> map_of [(''name'', JStr ''x''), (''tags'', JArr [])] ''tags'' = Some (JArr [])
   \<and> map_of [(''name'', JNum 123)] ''tags'' = None"
  by (simp add: getInvalidTestData_def assign_def)

text \<open>
  The boundary data of the fields that are not named \<^verbatim>\<open>__proto__\<close>: a string of length
  255 and the single character \<^verbatim>\<open>a\<close> for a field that held a string, 999999 and 0 for a
  field that held a number.
\<close>

lemma getBoundaryTestData_other_keys:
  assumes "distinct (map fst R)" and "(k, v) \<in> set R" and "k \<noteq> ''__proto__''"
  shows "\<exists>mx mn. getBoundaryTestData (JObj R) ''max'' = Inr (JObj mx)
           \<and> getBoundaryTestData (JObj R) ''min'' = Inr (JObj mn)
           \<and> (typeof v = ''string'' \<longrightarrow>
                 (\<exists>s. map_of mx k = Some (JStr s) \<and> length s = 255)
                 \<and> map_of mn k = Some (JStr ''a''))
           \<and> (typeof v = ''number'' \<longrightarrow>
                 map_of mx k = Some (JNum 999999) \<and> map_of mn k = Some (JNum 0))"
proof -
  from getBoundaryTestData_lookup [OF assms, of "''max''"] obtain mx
    where mx: "getBoundaryTestData (JObj R) ''max'' = Inr (JObj mx)"
      "map_of mx k =
       (if typeof v = ''string'' then Some (JStr (replicate string_maxLength CHR ''a''))
        else if typeof v = ''number'' then Some (JNum number_max) else None)"
    by auto
  from getBoundaryTestData_lookup [OF assms, of "''min''"] obtain mn
    where mn: "getBoundaryTestData (JObj R) ''min'' = Inr (JObj mn)"
      "map_of mn k =
       (if typeof v = ''string'' then Some (JStr ''a'')
        else if typeof v = ''number'' then Some (JNum number_min) else None)"
    by auto
  from mx mn show ?thesis
    by (auto simp: string_maxLength_def number_max_def number_min_def)
qed

text \<open>
  Claim C9 speaks of every string field and every number field of every request. The
  request \<^verbatim>\<open>{"__proto__": "x", "name": "y", "size": 3}\<close>, as \<^verbatim>\<open>JSON.parse\<close> makes it, has
  the string field \<^verbatim>\<open>__proto__\<close>; \<^verbatim>\<open>boundary["__proto__"] = ...\<close> makes no field, so the
  boundary data are \<^verbatim>\<open>{name: "aaa...", size: 999999}\<close> and \<^verbatim>\<open>{name: "a", size: 0}\<close>,
  and that string field has neither a value of length 255 nor the value \<^verbatim>\<open>a\<close>.
\<close>

theorem getBoundaryTestData_misses_proto_field:
  "typeof (JStr ''x'') = ''string''
   \<and> getBoundaryTestData
        (JObj [(''__proto__'', JStr ''x''), (''name'', JStr ''y''), (''size'', JNum 3)]) ''max''
       = Inr (JObj [(''name'', JStr (replicate 255 CHR ''a'')), (''size'', JNum 999999)])
   \<and> getBoundaryTestData
        (JObj [(''__proto__'', JStr ''x''), (''name'', JStr ''y''), (''size'', JNum 3)]) ''min''
       = Inr (JObj [(''name'', JStr ''a''), (''size'', JNum 0)])
   \<and> map_of [(''name'', JStr (replicate 255 CHR ''a'')), (''size'', JNum 999999)] ''__proto__'' = None
   \<and> map_of [(''name'', JStr ''a''), (''size'', JNum 0)] ''__proto__'' = None"
  by (simp add: getBoundaryTestData_def assign_def string_maxLength_def number_max_def
      number_min_def)

text \<open>The other two helpers build their object by the same assignment and leave the
  field \<^verbatim>\<open>__proto__\<close> out in the same way.\<close>

lemma proto_field_in_other_helpers:
  "getInvalidTestData (JObj [(''__proto__'', JStr ''x''), (''name'', JStr ''y'')])
     = Inr (JObj [(''name'', JNum 123)])
   \<and> getEdgeTestData (JObj [(''__proto__'', JStr ''x''), (''name'', JStr ''y'')]) ''null''
       = Inr (JObj [(''name'', JNull)])
   \<and> getEdgeTestData (JObj [(''__proto__'', JObj []), (''size'', JNum 3)]) ''special''
       = Inr (JObj [(''size'', JNum 3)])"
  by (simp add: getInvalidTestData_def getEdgeTestData_def assign_def)

section \<open>Classification\<close>

lemmas normalize_defs =
  normalizeInput_def normalizeInput_try_def parseInput_def apiFields_def storyFields_def
  truthy_opt_def js_or_def

lemma apiFields_None:
  "apiFields parsed = None \<longleftrightarrow>
     \<not> (truthy_opt (getProp parsed ''endpoint'') \<and> truthy_opt (getProp parsed ''method''))"
  by (simp add: apiFields_def truthy_opt_def split: option.splits)

lemma normalizeInput_passthrough:
  "typeof input = ''object'' \<and> truthy_opt (getProp input ''type'')
     \<Longrightarrow> normalizeInput P input = Inr input"
  by (cases input) (simp_all add: normalizeInput_def normalizeInput_try_def truthy_opt_def)

lemma normalizeInput_type:
  assumes "\<not> (typeof input = ''object'' \<and> truthy_opt (getProp input ''type''))"
  shows "\<exists>normalized. normalizeInput P input = Inr normalized \<and>
     getProp normalized ''type'' =
     Some (JStr (if truthy_opt (getProp (parseInput P input) ''endpoint'')
                    \<and> truthy_opt (getProp (parseInput P input) ''method'') then ''api''
                 else if storyFields (parseInput P input) then ''user_story''
                 else ''raw_text''))"
proof (cases "input = JNull \<or> parseInput P input = JNull")
  case True
  then have thrown: "normalizeInput_try P input = Inl TypeError"
    using assms by (auto simp: normalizeInput_try_def Let_def)
  from True have "\<exists>text. toStr input = Inr text"
    by (cases input) (auto simp: parseInput_def)
  moreover from True have "getProp (parseInput P input) ''endpoint'' = None"
    "\<not> storyFields (parseInput P input)"
    by (auto simp: parseInput_def storyFields_def truthy_opt_def)
  ultimately show ?thesis
    using thrown by (auto simp: normalizeInput_def truthy_opt_def bind_err_def)
next
  case False
  show ?thesis
  proof (cases "apiFields (parseInput P input)")
    case None
    with False assms apiFields_None [of "parseInput P input"] show ?thesis
      by (auto simp: normalizeInput_def normalizeInput_try_def Let_def)
  next
    case (Some em)
    with False assms apiFields_None [of "parseInput P input"] show ?thesis
      by (cases em) (auto simp: normalizeInput_def normalizeInput_try_def Let_def)
  qed
qed

text \<open>
  Claim C3, as the code has it. An object input that carries a truthy \<^verbatim>\<open>type\<close> field is
  returned as it is, whatever its other fields. For every other input normalization
  returns, and with \<open>parsed\<close> the outcome of the parsing step: when \<^verbatim>\<open>parsed.endpoint\<close> and
  \<^verbatim>\<open>parsed.method\<close> are both truthy the variant is \<^verbatim>\<open>api\<close>; when they are not and one
  of \<^verbatim>\<open>user\<close>, \<^verbatim>\<open>story\<close>, \<^verbatim>\<open>as\<close>, \<^verbatim>\<open>iWant\<close>, \<^verbatim>\<open>soThat\<close> is truthy the variant is
  \<^verbatim>\<open>user_story\<close>; in every remaining case the variant is \<^verbatim>\<open>raw_text\<close>.
\<close>

theorem normalizeInput_classification:
  "(typeof input = ''object'' \<and> truthy_opt (getProp input ''type'')
      \<longrightarrow> normalizeInput JSON_parse input = Inr input)
   \<and> (\<not> (typeof input = ''object'' \<and> truthy_opt (getProp input ''type'')) \<longrightarrow>
        (\<exists>normalized. normalizeInput JSON_parse input = Inr normalized
      \<and> (truthy_opt (getProp (parseInput JSON_parse input) ''endpoint'')
           \<and> truthy_opt (getProp (parseInput JSON_parse input) ''method'')
         \<longrightarrow> getProp normalized ''type'' = Some (JStr ''api''))
      \<and> (\<not> (truthy_opt (getProp (parseInput JSON_parse input) ''endpoint'')
               \<and> truthy_opt (getProp (parseInput JSON_parse input) ''method''))
         \<and> (truthy_opt (getProp (parseInput JSON_parse input) ''user'')
              \<or> truthy_opt (getProp (parseInput JSON_parse input) ''story'')
              \<or> truthy_opt (getProp (parseInput JSON_parse input) ''as'')
              \<or> truthy_opt (getProp (parseInput JSON_parse input) ''iWant'')
              \<or> truthy_opt (getProp (parseInput JSON_parse input) ''soThat''))
         \<longrightarrow> getProp normalized ''type'' = Some (JStr ''user_story''))
      \<and> (\<not> (truthy_opt (getProp (parseInput JSON_parse input) ''endpoint'')
               \<and> truthy_opt (getProp (parseInput JSON_parse input) ''method''))
         \<and> \<not> (truthy_opt (getProp (parseInput JSON_parse input) ''user'')
              \<or> truthy_opt (getProp (parseInput JSON_parse input) ''story'')
              \<or> truthy_opt (getProp (parseInput JSON_parse input) ''as'')
              \<or> truthy_opt (getProp (parseInput JSON_parse input) ''iWant'')
              \<or> truthy_opt (getProp (parseInput JSON_parse input) ''soThat''))
         \<longrightarrow> getProp normalized ''type'' = Some (JStr ''raw_text''))))"
proof (intro conjI impI)
  assume "typeof input = ''object'' \<and> truthy_opt (getProp input ''type'')"
  then show "normalizeInput JSON_parse input = Inr input"
    by (rule normalizeInput_passthrough)
next
  assume "\<not> (typeof input = ''object'' \<and> truthy_opt (getProp input ''type''))"
  from normalizeInput_type [OF this, of JSON_parse] obtain normalized where
    "normalizeInput JSON_parse input = Inr normalized"
    "getProp normalized ''type'' =
     Some (JStr (if truthy_opt (getProp (parseInput JSON_parse input) ''endpoint'')
                    \<and> truthy_opt (getProp (parseInput JSON_parse input) ''method'') then ''api''
                 else if storyFields (parseInput JSON_parse input) then ''user_story''
                 else ''raw_text''))"
    by blast
  then show "\<exists>normalized. normalizeInput JSON_parse input = Inr normalized
      \<and> (truthy_opt (getProp (parseInput JSON_parse input) ''endpoint'')
           \<and> truthy_opt (getProp (parseInput JSON_parse input) ''method'')
         \<longrightarrow> getProp normalized ''type'' = Some (JStr ''api''))
      \<and> (\<not> (truthy_opt (getProp (parseInput JSON_parse input) ''endpoint'')
               \<and> truthy_opt (getProp (parseInput JSON_parse input) ''method''))
         \<and> (truthy_opt (getProp (parseInput JSON_parse input) ''user'')
              \<or> truthy_opt (getProp (parseInput JSON_parse input) ''story'')
              \<or> truthy_opt (getProp (parseInput JSON_parse input) ''as'')
              \<or> truthy_opt (getProp (parseInput JSON_parse input) ''iWant'')
              \<or> truthy_opt (getProp (parseInput JSON_parse input) ''soThat''))
         \<longrightarrow> getProp normalized ''type'' = Some (JStr ''user_story''))
      \<and> (\<not> (truthy_opt (getProp (parseInput JSON_parse input) ''endpoint'')
               \<and> truthy_opt (getProp (parseInput JSON_parse input) ''method''))
         \<and> \<not> (truthy_opt (getProp (parseInput JSON_parse input) ''user'')
              \<or> truthy_opt (getProp (parseInput JSON_parse input) ''story'')
              \<or> truthy_opt (getProp (parseInput JSON_parse input) ''as'')
              \<or> truthy_opt (getProp (parseInput JSON_parse input) ''iWant'')
              \<or> truthy_opt (getProp (parseInput JSON_parse input) ''soThat''))
         \<longrightarrow> getProp normalized ''type'' = Some (JStr ''raw_text''))"
    unfolding storyFields_def by (intro exI [of _ normalized]) simp
qed

theorem normalizeInput_classification_witness:
  "normalizeInput unparsable (JObj [(''type'', JStr ''custom''), (''endpoint'', JStr ''/x''), (''method'', JStr ''GET'')])
     = Inr (JObj [(''type'', JStr ''custom''), (''endpoint'', JStr ''/x''), (''method'', JStr ''GET'')])
   \<and> (\<exists>normalized. normalizeInput unparsable
         (JObj [(''endpoint'', JStr ''/login''), (''method'', JStr ''POST''), (''user'', JStr ''u'')])
         = Inr normalized
       \<and> getProp normalized ''type'' = Some (JStr ''api''))
   \<and> (\<exists>normalized. normalizeInput unparsable
         (JObj [(''story'', JStr ''As a user I want to login''), (''method'', JStr ''POST'')])
         = Inr normalized
       \<and> getProp normalized ''type'' = Some (JStr ''user_story''))
   \<and> (\<exists>normalized. normalizeInput unparsable (JStr ''Login functionality'') = Inr normalized
       \<and> getProp normalized ''type'' = Some (JStr ''raw_text''))"
  using
    normalizeInput_classification
      [of "JObj [(''type'', JStr ''custom''), (''endpoint'', JStr ''/x''), (''method'', JStr ''GET'')]" unparsable]
    normalizeInput_classification
      [of "JObj [(''endpoint'', JStr ''/login''), (''method'', JStr ''POST''), (''user'', JStr ''u'')]" unparsable]
    normalizeInput_classification
      [of "JObj [(''story'', JStr ''As a user I want to login''), (''method'', JStr ''POST'')]" unparsable]
    normalizeInput_classification
      [of "JStr ''Login functionality''" unparsable]
  by (simp add: truthy_opt_def parseInput_def unparsable_def)

text \<open>
  Claim C3 as stated goes by the presence of the fields. The object
  \<^verbatim>\<open>{endpoint: "", method: "POST"}\<close> has both fields and is classified \<^verbatim>\<open>raw_text\<close>,
  and an object with both fields and the field \<^verbatim>\<open>type: "user_story"\<close> keeps that type.
\<close>

theorem endpoint_and_method_fields_not_api:
  "getProp (JObj [(''endpoint'', JStr ''''), (''method'', JStr ''POST'')]) ''endpoint'' = Some (JStr '''')
   \<and> getProp (JObj [(''endpoint'', JStr ''''), (''method'', JStr ''POST'')]) ''method'' = Some (JStr ''POST'')
   \<and> normalizeInput unparsable (JObj [(''endpoint'', JStr ''''), (''method'', JStr ''POST'')])
       = Inr (JObj [(''type'', JStr ''raw_text''),
                    (''content'', JStr ''{\"endpoint\":\"\",\"method\":\"POST\"}'')])
   \<and> normalizeInput unparsable
         (JObj [(''type'', JStr ''user_story''), (''content'', JStr ''As a user I want to login''),
                (''endpoint'', JStr ''/login''), (''method'', JStr ''POST'')])
       = Inr (JObj [(''type'', JStr ''user_story''), (''content'', JStr ''As a user I want to login''),
                    (''endpoint'', JStr ''/login''), (''method'', JStr ''POST'')])"
  by (simp add: normalize_defs unparsable_def quote_json_def json_escapes_def backslash_def)

section \<open>Reaching the dispatch\<close>

lemma sequence_err_error:
  "sequence_err ms = Inl e \<Longrightarrow> Inl e \<in> set ms"
  by (induction ms) (auto simp: bind_err_def split: sum.splits)

lemma toStr_error: "toStr v = Inl e \<Longrightarrow> e = TypeError"
proof (induction v rule: toStr.induct)
  case (5 xs)
  from "5.prems" have "sequence_err (map (\<lambda>x. if x = JNull then Inr [] else toStr x) xs) = Inl e"
    by (auto simp: bind_err_def split: sum.splits)
  from sequence_err_error [OF this] obtain x where "x \<in> set xs" "x \<noteq> JNull" "toStr x = Inl e"
    by (auto split: if_splits)
  with "5.IH" show ?case by blast
qed (auto split: if_splits)

lemma toStr_opt_error: "toStr_opt v = Inl e \<Longrightarrow> e = TypeError"
  by (auto simp: toStr_opt_def dest: toStr_error split: option.splits)

lemma generateBaseId_error: "generateBaseId ni = Inl e \<Longrightarrow> e = TypeError"
  by (auto simp: generateBaseId_def Let_def split: if_splits option.splits json.splits)

lemma extractMainAction_error: "extractMainAction c = Inl e \<Longrightarrow> e = TypeError"
  by (auto simp: extractMainAction_def split: option.splits json.splits)

lemma extractMainFeature_error: "extractMainFeature c = Inl e \<Longrightarrow> e = TypeError"
  by (auto simp: extractMainFeature_def split: option.splits json.splits)

lemma generateUserStoryTestCases_error:
  "generateUserStoryTestCases ni b = Inl e \<Longrightarrow> e = TypeError"
  using extractMainAction_error [of "getProp ni ''content''"]
  by (auto simp: generateUserStoryTestCases_def bind_err_def split: if_splits sum.splits)

lemma generateRawTextTestCases_error:
  "generateRawTextTestCases ni b = Inl e \<Longrightarrow> e = TypeError"
  using extractMainFeature_error [of "getProp ni ''content''"]
  by (auto simp: generateRawTextTestCases_def bind_err_def split: if_splits sum.splits)

lemma getInvalidTestData_error: "getInvalidTestData r = Inl e \<Longrightarrow> e = TypeError"
  by (auto simp: getInvalidTestData_def split: if_splits)

lemma getBoundaryTestData_error: "getBoundaryTestData r t = Inl e \<Longrightarrow> e = TypeError"
  by (auto simp: getBoundaryTestData_def split: if_splits)

lemma getEdgeTestData_error: "getEdgeTestData r t = Inl e \<Longrightarrow> e = TypeError"
  by (auto simp: getEdgeTestData_def split: if_splits)

lemma generateApiTestCases_error:
  "generateApiTestCases ni b = Inl e \<Longrightarrow> e = TypeError"
  unfolding generateApiTestCases_def Let_def bind_err_def
  by (auto split: if_splits sum.splits
      dest: getInvalidTestData_error getBoundaryTestData_error getEdgeTestData_error
        toStr_opt_error)

lemma generateTestCases_known_type:
  assumes "getProp ni ''type'' \<in> {Some (JStr ''api''), Some (JStr ''user_story''), Some (JStr ''raw_text'')}"
  shows "generateTestCases ni \<noteq> Inl (UnsupportedInputType t)"
proof
  assume bad: "generateTestCases ni = Inl (UnsupportedInputType t)"
  show False
  proof (cases "generateBaseId ni")
    case (Inl e)
    with bad generateBaseId_error [of ni e] show False
      by (simp add: generateTestCases_def bind_err_def)
  next
    case (Inr b)
    with bad assms show False
      using generateApiTestCases_error [of ni b "UnsupportedInputType t"]
        generateUserStoryTestCases_error [of ni b "UnsupportedInputType t"]
        generateRawTextTestCases_error [of ni b "UnsupportedInputType t"]
      by (auto simp: generateTestCases_def bind_err_def split: if_splits)
  qed
qed

lemma normalizeInput_returns: "\<exists>normalized. normalizeInput P input = Inr normalized"
  using normalizeInput_passthrough [of input P] normalizeInput_type [of input P] by blast

lemma normalizeInput_caught:
  assumes "normalizeInput_try P input = Inl err"
  shows "\<exists>text. toStr input = Inr text
           \<and> normalizeInput P input
               = Inr (JObj [(''type'', JStr ''raw_text''), (''content'', JStr text)])"
proof -
  from assms have "input = JNull \<or> parseInput P input = JNull"
    by (auto simp: normalizeInput_try_def Let_def split: if_splits option.splits)
  then have "\<exists>text. toStr input = Inr text"
    by (cases input) (auto simp: parseInput_def)
  with assms show ?thesis by (auto simp: normalizeInput_def bind_err_def)
qed

text \<open>
  Claim C2, as the code has it. Normalization returns for every input, and what its
  \<^verbatim>\<open>try\<close> block throws becomes the \<^verbatim>\<open>raw_text\<close> record of the input's text. For every
  input that is not an object carrying a truthy \<^verbatim>\<open>type\<close> field other than the three
  known tags, the normalized record has one of the three tags and \<open>generateTestCases\<close>
  does not throw the unsupported-input-type error on it.
\<close>

theorem normalizeInput_known_variant:
  "(\<exists>normalized. normalizeInput JSON_parse input = Inr normalized)
   \<and> (\<forall>err. normalizeInput_try JSON_parse input = Inl err \<longrightarrow>
         (\<exists>text. toStr input = Inr text
            \<and> normalizeInput JSON_parse input
                = Inr (JObj [(''type'', JStr ''raw_text''), (''content'', JStr text)])))
   \<and> ((typeof input = ''object'' \<and> truthy_opt (getProp input ''type'')
          \<longrightarrow> getProp input ''type''
                \<in> {Some (JStr ''api''), Some (JStr ''user_story''), Some (JStr ''raw_text'')})
        \<longrightarrow> (\<exists>normalized. normalizeInput JSON_parse input = Inr normalized
               \<and> getProp normalized ''type''
                   \<in> {Some (JStr ''api''), Some (JStr ''user_story''), Some (JStr ''raw_text'')}
               \<and> (\<forall>t. generateTestCases normalized \<noteq> Inl (UnsupportedInputType t))))"
proof (intro conjI allI impI)
  show "\<exists>normalized. normalizeInput JSON_parse input = Inr normalized"
    by (rule normalizeInput_returns)
next
  fix err
  assume "normalizeInput_try JSON_parse input = Inl err"
  then show "\<exists>text. toStr input = Inr text
            \<and> normalizeInput JSON_parse input
                = Inr (JObj [(''type'', JStr ''raw_text''), (''content'', JStr text)])"
    by (rule normalizeInput_caught)
next
  assume tagged: "typeof input = ''object'' \<and> truthy_opt (getProp input ''type'')
          \<longrightarrow> getProp input ''type''
                \<in> {Some (JStr ''api''), Some (JStr ''user_story''), Some (JStr ''raw_text'')}"
  have "\<exists>normalized. normalizeInput JSON_parse input = Inr normalized
               \<and> getProp normalized ''type''
                   \<in> {Some (JStr ''api''), Some (JStr ''user_story''), Some (JStr ''raw_text'')}"
  proof (cases "typeof input = ''object'' \<and> truthy_opt (getProp input ''type'')")
    case True
    with tagged normalizeInput_passthrough [of input JSON_parse] show ?thesis by simp
  next
    case False
    from normalizeInput_type [OF False, of JSON_parse] show ?thesis by auto
  qed
  then show "\<exists>normalized. normalizeInput JSON_parse input = Inr normalized
               \<and> getProp normalized ''type''
                   \<in> {Some (JStr ''api''), Some (JStr ''user_story''), Some (JStr ''raw_text'')}
               \<and> (\<forall>t. generateTestCases normalized \<noteq> Inl (UnsupportedInputType t))"
    using generateTestCases_known_type by blast
qed

theorem normalizeInput_known_variant_witness:
  "normalizeInput unparsable
      (JObj [(''type'', JStr ''user_story''), (''content'', JStr ''As a user I want to login'')])
     = Inr (JObj [(''type'', JStr ''user_story''), (''content'', JStr ''As a user I want to login'')])
   \<and> generateTestCases
        (JObj [(''type'', JStr ''user_story''), (''content'', JStr ''As a user I want to login'')])
       \<noteq> Inl (UnsupportedInputType ''user_story'')
   \<and> normalizeInput_try unparsable JNull = Inl TypeError
   \<and> normalizeInput unparsable JNull
       = Inr (JObj [(''type'', JStr ''raw_text''), (''content'', JStr ''null'')])"
proof -
  let ?story = "JObj [(''type'', JStr ''user_story''), (''content'', JStr ''As a user I want to login'')]"
  have pass: "normalizeInput unparsable ?story = Inr ?story"
    by (simp add: normalizeInput_def normalizeInput_try_def truthy_opt_def)
  have thrown: "normalizeInput_try unparsable JNull = Inl TypeError"
    by (simp add: normalizeInput_try_def)
  from normalizeInput_known_variant [of unparsable ?story] pass
  have "generateTestCases ?story \<noteq> Inl (UnsupportedInputType ''user_story'')"
    by (simp add: truthy_opt_def)
  moreover from normalizeInput_known_variant [of unparsable JNull] thrown
  have "normalizeInput unparsable JNull
       = Inr (JObj [(''type'', JStr ''raw_text''), (''content'', JStr ''null'')])"
    by auto
  ultimately show ?thesis using pass thrown by simp
qed

text \<open>
  Claim C2 as stated covers every input. The object
  \<^verbatim>\<open>{type: "graphql", content: "query"}\<close> passes through normalization unchanged, and
  \<open>generateTestCases\<close> throws \<^verbatim>\<open>Unsupported input type: graphql\<close> on it.
\<close>

theorem unknown_type_tag_reaches_unsupported:
  "normalizeInput unparsable (JObj [(''type'', JStr ''graphql''), (''content'', JStr ''query'')])
     = Inr (JObj [(''type'', JStr ''graphql''), (''content'', JStr ''query'')])
   \<and> generateTestCases (JObj [(''type'', JStr ''graphql''), (''content'', JStr ''query'')])
       = Inl (UnsupportedInputType ''graphql'')"
  by (simp add: normalizeInput_def normalizeInput_try_def truthy_opt_def generateTestCases_def
      generateBaseId_def bind_err_def js_or_def match_words3_def is_word_char_def is_alnum_def
      toUpperCase_def toUpper_char_def toStr_opt_def)

section \<open>The base identifier without words\<close>

text \<open>
  Claim C4 says that content without a word of three characters yields \<^verbatim>\<open>TC_GENERIC\<close>.
  The minted text always starts with \<^verbatim>\<open>TC_\<close>, so it is never empty and the right
  operand of \<^verbatim>\<open>||\<close> is never taken: for the content \<^verbatim>\<open>hi\<close> and for the empty content
  the base identifier is \<^verbatim>\<open>TC_\<close>.
\<close>

theorem generateBaseId_never_falls_back:
  "generateBaseId (JObj [(''type'', JStr ''raw_text''), (''content'', JStr ''hi'')]) = Inr ''TC_''
   \<and> generateBaseId (JObj [(''type'', JStr ''user_story''), (''content'', JStr '''')]) = Inr ''TC_''"
  by (simp add: generateBaseId_def js_or_def match_words3_def is_word_char_def is_alnum_def
      toUpperCase_def toUpper_char_def)

lemma generateBaseId_content:
  assumes "getProp ni ''type'' \<noteq> Some (JStr ''api'')" and "getProp ni ''content'' = Some (JStr c)"
  shows "generateBaseId ni
    = Inr (''TC_'' @ intercalate ''_'' (map toUpperCase (take 3 (match_words3 c))))"
  using assms by (cases ni) (auto simp: generateBaseId_def js_or_def Let_def)

section \<open>What the synthesizer produces\<close>

lemma completeCase_newTestCase:
  "completeCase (newTestCase a b c d steps e td p) = (steps \<noteq> [])"
  by (cases steps) (simp_all add: completeCase_def newTestCase_def)

lemma missingFields_present:
  "list_all (\<lambda>field. field \<in> set (map fst fs)) flds \<Longrightarrow> missingFields S i (JObj fs) flds = Inr []"
  by (induction flds) (simp_all add: bind_err_def)

lemma caseErrors_complete: "completeCase c \<Longrightarrow> caseErrors S i c = Inr []"
proof (cases c)
  case (JObj fs)
  assume "completeCase c"
  with JObj have flds: "list_all (\<lambda>field. field \<in> set (map fst fs)) requiredFields"
    and steps: "\<exists>s ss. map_of fs ''steps'' = Some (JArr (s # ss))"
    by (auto simp: completeCase_def requiredFields_def split: option.splits json.splits list.splits)
  from steps have "\<not> stepsEmpty (JObj fs)"
    by (auto simp: stepsEmpty_def)
  with missingFields_present [OF flds] JObj show ?thesis
    by (simp add: caseErrors_def bind_err_def)
qed (simp_all add: completeCase_def)

lemma casesErrors_complete: "list_all completeCase cs \<Longrightarrow> casesErrors S k cs = Inr []"
  by (induction cs arbitrary: k) (simp_all add: bind_err_def caseErrors_complete)

lemma validateOutput_four_sections:
  assumes "list_all completeCase ps" "list_all completeCase ns" "list_all completeCase bs"
    "list_all completeCase es"
  shows "validateOutput (JObj [(''positive'', JArr ps), (''negative'', JArr ns),
                               (''boundary'', JArr bs), (''edge'', JArr es)])
    = Inr \<lparr>isValid = (3 \<le> length ps \<and> 3 \<le> length ns \<and> 3 \<le> length bs \<and> 3 \<le> length es),
           errors = (if length ps < 3 then [lessThan3Error ''positive''] else [])
                  @ (if length ns < 3 then [lessThan3Error ''negative''] else [])
                  @ (if length bs < 3 then [lessThan3Error ''boundary''] else [])
                  @ (if length es < 3 then [lessThan3Error ''edge''] else [])\<rparr>"
  using assms
  by (auto simp: validateOutput_def bind_err_def casesErrors_complete requiredSections_def
      sectionErrors_def)

lemma extractMainAction_string: "\<exists>a. extractMainAction (Some (JStr c)) = Inr a"
  by (simp add: extractMainAction_def split: option.splits)

lemma extractMainFeature_string: "\<exists>a. extractMainFeature (Some (JStr c)) = Inr a"
  by (simp add: extractMainFeature_def split: option.splits)

lemma getProp_not_null: "getProp ni k = Some x \<Longrightarrow> ni \<noteq> JNull"
  by auto

lemma generateUserStoryTestCases_shape:
  assumes "getProp ni ''content'' = Some (JStr c)"
  shows "\<exists>p n b e. generateUserStoryTestCases ni baseId
           = Inr (JObj [(''positive'', JArr [p]), (''negative'', JArr [n]),
                        (''boundary'', JArr [b]), (''edge'', JArr [e])])
         \<and> completeCase p \<and> completeCase n \<and> completeCase b \<and> completeCase e"
proof -
  obtain a where "extractMainAction (Some (JStr c)) = Inr a"
    using extractMainAction_string by blast
  with assms getProp_not_null [OF assms] show ?thesis
    by (simp add: generateUserStoryTestCases_def bind_err_def completeCase_newTestCase)
qed

lemma generateRawTextTestCases_shape:
  assumes "getProp ni ''content'' = Some (JStr c)"
  shows "\<exists>p n b e. generateRawTextTestCases ni baseId
           = Inr (JObj [(''positive'', JArr [p]), (''negative'', JArr [n]),
                        (''boundary'', JArr [b]), (''edge'', JArr [e])])
         \<and> completeCase p \<and> completeCase n \<and> completeCase b \<and> completeCase e"
proof -
  obtain a where "extractMainFeature (Some (JStr c)) = Inr a"
    using extractMainFeature_string by blast
  with assms getProp_not_null [OF assms] show ?thesis
    by (simp add: generateRawTextTestCases_def bind_err_def completeCase_newTestCase)
qed

lemma js_or_not_null: "b \<noteq> JNull \<Longrightarrow> js_or a b \<noteq> JNull"
  by (auto simp: js_or_def split: option.splits)

lemma generateApiTestCases_shape:
  assumes "ni \<noteq> JNull" and "toStr_opt (getProp ni ''method'') = Inr m"
    and "toStr_opt (getProp ni ''endpoint'') = Inr ep"
  shows "\<exists>p n1 n2 b1 b2 e1 e2 invalidData. generateApiTestCases ni baseId
           = Inr (JObj [(''positive'', JArr [p]), (''negative'', JArr [n1, n2]),
                        (''boundary'', JArr [b1, b2]), (''edge'', JArr [e1, e2])])
         \<and> completeCase p \<and> completeCase n1 \<and> completeCase n2 \<and> completeCase b1
         \<and> completeCase b2 \<and> completeCase e1 \<and> completeCase e2
         \<and> getInvalidTestData (js_or (getProp ni ''request'') (JObj [])) = Inr invalidData
         \<and> getProp n2 ''test_data'' = Some invalidData"
proof -
  let ?request = "js_or (getProp ni ''request'') (JObj [])"
  have "?request \<noteq> JNull" by (rule js_or_not_null) simp
  then obtain d1 d2 d3 d4 d5 where
    "getInvalidTestData ?request = Inr d1" "getBoundaryTestData ?request ''max'' = Inr d2"
    "getBoundaryTestData ?request ''min'' = Inr d3" "getEdgeTestData ?request ''null'' = Inr d4"
    "getEdgeTestData ?request ''special'' = Inr d5"
    by (simp add: getInvalidTestData_def getBoundaryTestData_def getEdgeTestData_def)
  with assms show ?thesis
    by (simp add: generateApiTestCases_def bind_err_def Let_def completeCase_newTestCase)
      (simp add: newTestCase_def)
qed

lemma generateApiTestCases_returns:
  assumes "generateApiTestCases ni baseId = Inr tc"
  shows "ni \<noteq> JNull \<and> (\<exists>m ep. toStr_opt (getProp ni ''method'') = Inr m
           \<and> toStr_opt (getProp ni ''endpoint'') = Inr ep)"
  using assms
  by (auto simp: generateApiTestCases_def bind_err_def Let_def split: if_splits sum.splits)

lemma generateBaseId_api:
  assumes "getProp ni ''type'' = Some (JStr ''api'')" and "getProp ni ''endpoint'' = Some (JStr e)"
  shows "generateBaseId ni = Inr (''TC_'' @ toUpperCase (replace_non_alnum e))"
  using assms by (cases ni) (auto simp: generateBaseId_def)

lemma generateTestCases_api:
  assumes "getProp ni ''type'' = Some (JStr ''api'')" and "getProp ni ''endpoint'' = Some (JStr e)"
  shows "generateTestCases ni = generateApiTestCases ni (''TC_'' @ toUpperCase (replace_non_alnum e))"
  using assms generateBaseId_api [OF assms] by (simp add: generateTestCases_def bind_err_def)

lemma generateTestCases_user_story:
  assumes "getProp ni ''type'' = Some (JStr ''user_story'')" and "getProp ni ''content'' = Some (JStr c)"
  shows "generateTestCases ni = generateUserStoryTestCases ni
           (''TC_'' @ intercalate ''_'' (map toUpperCase (take 3 (match_words3 c))))"
  using assms generateBaseId_content [of ni c] by (simp add: generateTestCases_def bind_err_def)

lemma generateTestCases_raw_text:
  assumes "getProp ni ''type'' = Some (JStr ''raw_text'')" and "getProp ni ''content'' = Some (JStr c)"
  shows "generateTestCases ni = generateRawTextTestCases ni
           (''TC_'' @ intercalate ''_'' (map toUpperCase (take 3 (match_words3 c))))"
  using assms generateBaseId_content [of ni c] by (simp add: generateTestCases_def bind_err_def)

lemma generateUserStoryTestCases_returns:
  "generateUserStoryTestCases ni b = Inr tc \<Longrightarrow> \<exists>c. getProp ni ''content'' = Some (JStr c)"
  by (auto simp: generateUserStoryTestCases_def bind_err_def extractMainAction_def
      split: if_splits sum.splits option.splits json.splits)

lemma generateRawTextTestCases_returns:
  "generateRawTextTestCases ni b = Inr tc \<Longrightarrow> \<exists>c. getProp ni ''content'' = Some (JStr c)"
  by (auto simp: generateRawTextTestCases_def bind_err_def extractMainFeature_def
      split: if_splits sum.splits option.splits json.splits)

text \<open>
  Claim C7. For every input of the variant \<^verbatim>\<open>user_story\<close> or \<^verbatim>\<open>raw_text\<close>, the
  synthesizer returns when the content is a string, and whatever it returns has exactly
  one case in each of the four sections; validating that output returns, with \<open>isValid\<close>
  false and with the error \<^verbatim>\<open>Section <name> has less than 3 test cases\<close> for each of
  the four sections.
\<close>

theorem narrative_variants_one_case_per_section:
  assumes "getProp ni ''type'' = Some (JStr ''user_story'')
             \<or> getProp ni ''type'' = Some (JStr ''raw_text'')"
  shows "(getProp ni ''content'' = Some (JStr c) \<longrightarrow>
            (\<exists>testCases. generateTestCases ni = Inr testCases))
         \<and> (\<forall>testCases. generateTestCases ni = Inr testCases \<longrightarrow>
               (\<exists>p n b e v.
                   testCases = JObj [(''positive'', JArr [p]), (''negative'', JArr [n]),
                                     (''boundary'', JArr [b]), (''edge'', JArr [e])]
                 \<and> validateOutput testCases = Inr v
                 \<and> isValid v = False
                 \<and> errors v = [''Section positive has less than 3 test cases'',
                                ''Section negative has less than 3 test cases'',
                                ''Section boundary has less than 3 test cases'',
                                ''Section edge has less than 3 test cases'']))"
proof -
  have shape: "\<exists>p n b e.
           generateTestCases ni
             = Inr (JObj [(''positive'', JArr [p]), (''negative'', JArr [n]),
                          (''boundary'', JArr [b]), (''edge'', JArr [e])])
         \<and> completeCase p \<and> completeCase n \<and> completeCase b \<and> completeCase e"
    if content: "getProp ni ''content'' = Some (JStr d)" for d
  proof -
    let ?baseId = "''TC_'' @ intercalate ''_'' (map toUpperCase (take 3 (match_words3 d)))"
    from assms show ?thesis
    proof
      assume story: "getProp ni ''type'' = Some (JStr ''user_story'')"
      from generateUserStoryTestCases_shape [OF content, of ?baseId]
        generateTestCases_user_story [OF story content]
      show ?thesis by auto
    next
      assume raw: "getProp ni ''type'' = Some (JStr ''raw_text'')"
      from generateRawTextTestCases_shape [OF content, of ?baseId]
        generateTestCases_raw_text [OF raw content]
      show ?thesis by auto
    qed
  qed
  have returns: "\<exists>d. getProp ni ''content'' = Some (JStr d)"
    if gen: "generateTestCases ni = Inr testCases" for testCases
  proof -
    from gen obtain b where b: "generateBaseId ni = Inr b"
      by (cases "generateBaseId ni") (simp_all add: generateTestCases_def bind_err_def)
    from assms gen b have "generateUserStoryTestCases ni b = Inr testCases
        \<or> generateRawTextTestCases ni b = Inr testCases"
      by (auto simp: generateTestCases_def bind_err_def)
    then show ?thesis
      using generateUserStoryTestCases_returns generateRawTextTestCases_returns by blast
  qed
  show ?thesis
  proof (intro conjI allI impI)
    assume "getProp ni ''content'' = Some (JStr c)"
    from shape [OF this] show "\<exists>testCases. generateTestCases ni = Inr testCases" by blast
  next
    fix testCases
    assume gen: "generateTestCases ni = Inr testCases"
    from returns [OF gen] obtain d where "getProp ni ''content'' = Some (JStr d)" by blast
    from shape [OF this] gen obtain p n b e where
      tc: "testCases = JObj [(''positive'', JArr [p]), (''negative'', JArr [n]),
                          (''boundary'', JArr [b]), (''edge'', JArr [e])]"
      and complete: "completeCase p" "completeCase n" "completeCase b" "completeCase e"
      by auto
    from complete have "validateOutput (JObj [(''positive'', JArr [p]), (''negative'', JArr [n]),
                                  (''boundary'', JArr [b]), (''edge'', JArr [e])])
        = Inr \<lparr>isValid = False,
               errors = [lessThan3Error ''positive'', lessThan3Error ''negative'',
                         lessThan3Error ''boundary'', lessThan3Error ''edge'']\<rparr>"
      by (simp add: validateOutput_four_sections)
    with tc show "\<exists>p n b e v.
                   testCases = JObj [(''positive'', JArr [p]), (''negative'', JArr [n]),
                                     (''boundary'', JArr [b]), (''edge'', JArr [e])]
                 \<and> validateOutput testCases = Inr v
                 \<and> isValid v = False
                 \<and> errors v = [''Section positive has less than 3 test cases'',
                                ''Section negative has less than 3 test cases'',
                                ''Section boundary has less than 3 test cases'',
                                ''Section edge has less than 3 test cases'']"
      by (simp add: lessThan3Error_def)
  qed
qed

theorem narrative_variants_one_case_per_section_witness:
  "\<exists>p n b e v.
      generateTestCases
        (JObj [(''type'', JStr ''user_story''), (''content'', JStr ''As a user I want to login'')])
        = Inr (JObj [(''positive'', JArr [p]), (''negative'', JArr [n]),
                     (''boundary'', JArr [b]), (''edge'', JArr [e])])
    \<and> validateOutput (JObj [(''positive'', JArr [p]), (''negative'', JArr [n]),
                             (''boundary'', JArr [b]), (''edge'', JArr [e])]) = Inr v
    \<and> isValid v = False
    \<and> errors v = [''Section positive has less than 3 test cases'',
                   ''Section negative has less than 3 test cases'',
                   ''Section boundary has less than 3 test cases'',
                   ''Section edge has less than 3 test cases'']"
proof -
  let ?ni = "JObj [(''type'', JStr ''user_story''), (''content'', JStr ''As a user I want to login'')]"
  note inst = narrative_variants_one_case_per_section [of ?ni "''As a user I want to login''"]
  from inst obtain testCases where "generateTestCases ?ni = Inr testCases" by auto
  with inst show ?thesis by force
qed

lemma generateTestCases_returns:
  assumes "generateTestCases ni = Inr tc"
  shows "\<exists>ps ns bs es.
           tc = JObj [(''positive'', JArr ps), (''negative'', JArr ns),
                      (''boundary'', JArr bs), (''edge'', JArr es)]
         \<and> list_all completeCase ps \<and> list_all completeCase ns
         \<and> list_all completeCase bs \<and> list_all completeCase es"
proof -
  from assms obtain b where b: "generateBaseId ni = Inr b"
    by (cases "generateBaseId ni") (simp_all add: generateTestCases_def bind_err_def)
  then have nonnull: "ni \<noteq> JNull"
    by (auto simp: generateBaseId_def)
  from assms b consider
      (api) "generateApiTestCases ni b = Inr tc"
    | (story) "generateUserStoryTestCases ni b = Inr tc"
    | (raw) "generateRawTextTestCases ni b = Inr tc"
    by (auto simp: generateTestCases_def bind_err_def split: if_splits sum.splits)
  then show ?thesis
  proof cases
    case api
    from generateApiTestCases_returns [OF api] obtain m ep
      where "toStr_opt (getProp ni ''method'') = Inr m" "toStr_opt (getProp ni ''endpoint'') = Inr ep"
      by blast
    from generateApiTestCases_shape [OF nonnull this, of b] api show ?thesis by auto
  next
    case story
    from generateUserStoryTestCases_returns [OF story] obtain c
      where "getProp ni ''content'' = Some (JStr c)" by blast
    from generateUserStoryTestCases_shape [OF this, of b] story show ?thesis by auto
  next
    case raw
    from generateRawTextTestCases_returns [OF raw] obtain c
      where "getProp ni ''content'' = Some (JStr c)" by blast
    from generateRawTextTestCases_shape [OF this, of b] raw show ?thesis by auto
  qed
qed

text \<open>
  Claim C10. Whatever input the synthesizer returns on, every case it has produced has
  the eight required fields and a non-empty steps array, and the validator returns on that
  output with errors of the form \<^verbatim>\<open>Section <name> has less than 3 test cases\<close> only;
  and the synthesizer does return on every normalized input of one of the three known
  variants (endpoint and method strings in the \<^verbatim>\<open>api\<close> case, content a string in the
  other two).
\<close>

theorem synthesized_cases_are_complete:
  "(\<forall>ni testCases. generateTestCases ni = Inr testCases \<longrightarrow>
       list_all completeCase (allCases testCases)
     \<and> (\<exists>v. validateOutput testCases = Inr v
            \<and> (\<forall>e \<in> set (errors v).
                  \<exists>section. e = ''Section '' @ section @ '' has less than 3 test cases'')))
   \<and> ((getProp ni ''type'' = Some (JStr ''api'')
          \<and> getProp ni ''endpoint'' = Some (JStr endpoint)
          \<and> getProp ni ''method'' = Some (JStr method))
        \<or> ((getProp ni ''type'' = Some (JStr ''user_story'')
               \<or> getProp ni ''type'' = Some (JStr ''raw_text''))
            \<and> getProp ni ''content'' = Some (JStr content))
       \<longrightarrow> (\<exists>testCases. generateTestCases ni = Inr testCases))"
proof (intro conjI allI impI)
  fix input testCases
  assume "generateTestCases input = Inr testCases"
  from generateTestCases_returns [OF this] obtain ps ns bs es where
    tc: "testCases = JObj [(''positive'', JArr ps), (''negative'', JArr ns),
                      (''boundary'', JArr bs), (''edge'', JArr es)]"
    and complete: "list_all completeCase ps" "list_all completeCase ns"
      "list_all completeCase bs" "list_all completeCase es"
    by blast
  from tc complete show "list_all completeCase (allCases testCases)"
    by (simp add: allCases_def)
  from validateOutput_four_sections [OF complete] tc
  show "\<exists>v. validateOutput testCases = Inr v
            \<and> (\<forall>e \<in> set (errors v).
                  \<exists>section. e = ''Section '' @ section @ '' has less than 3 test cases'')"
    by (auto simp: lessThan3Error_def)
next
  assume "(getProp ni ''type'' = Some (JStr ''api'')
          \<and> getProp ni ''endpoint'' = Some (JStr endpoint)
          \<and> getProp ni ''method'' = Some (JStr method))
        \<or> ((getProp ni ''type'' = Some (JStr ''user_story'')
               \<or> getProp ni ''type'' = Some (JStr ''raw_text''))
            \<and> getProp ni ''content'' = Some (JStr content))"
  then show "\<exists>testCases. generateTestCases ni = Inr testCases"
  proof (elim disjE conjE)
    assume api: "getProp ni ''type'' = Some (JStr ''api'')"
      and ep: "getProp ni ''endpoint'' = Some (JStr endpoint)"
      and me: "getProp ni ''method'' = Some (JStr method)"
    from generateApiTestCases_shape [OF getProp_not_null [OF api], of "method" "endpoint"
        "''TC_'' @ toUpperCase (replace_non_alnum endpoint)"] ep me
      generateTestCases_api [OF api ep]
    show ?thesis by (auto simp: toStr_opt_def)
  next
    assume content: "getProp ni ''content'' = Some (JStr content)"
      and story: "getProp ni ''type'' = Some (JStr ''user_story'')"
    from generateUserStoryTestCases_shape [OF content] generateTestCases_user_story [OF story content]
    show ?thesis by metis
  next
    assume content: "getProp ni ''content'' = Some (JStr content)"
      and raw: "getProp ni ''type'' = Some (JStr ''raw_text'')"
    from generateRawTextTestCases_shape [OF content] generateTestCases_raw_text [OF raw content]
    show ?thesis by metis
  qed
qed

theorem synthesized_cases_are_complete_witness:
  "\<exists>testCases v.
      generateTestCases
        (JObj [(''type'', JStr ''api''), (''endpoint'', JStr ''/login''), (''method'', JStr ''POST''),
               (''request'', JObj [(''username'', JStr ''string'')]), (''response'', JObj [])])
        = Inr testCases
    \<and> list_all completeCase (allCases testCases)
    \<and> validateOutput testCases = Inr v
    \<and> list_all (\<lambda>e. \<exists>section. e = ''Section '' @ section @ '' has less than 3 test cases'')
          (errors v)"
proof -
  let ?ni = "JObj [(''type'', JStr ''api''), (''endpoint'', JStr ''/login''), (''method'', JStr ''POST''),
               (''request'', JObj [(''username'', JStr ''string'')]), (''response'', JObj [])]"
  note inst = synthesized_cases_are_complete [of ?ni "''/login''" "''POST''"]
  from inst obtain testCases where gen: "generateTestCases ?ni = Inr testCases"
    by auto
  with inst show ?thesis
    by (auto simp: list_all_iff)
qed

section \<open>The two scenarios\<close>

lemma normalizeInput_loginApiSpec:
  "normalizeInput JSON_parse loginApiSpec
     = Inr (JObj [(''type'', JStr ''api''), (''endpoint'', JStr ''/login''), (''method'', JStr ''POST''),
             (''request'', JObj [(''username'', JStr ''string''), (''password'', JStr ''string'')]),
             (''response'', JObj [])])"
  by (simp add: loginApiSpec_def normalize_defs)

lemma baseId_login: "''TC_'' @ toUpperCase (replace_non_alnum ''/login'') = ''TC__LOGIN''"
  by (simp add: toUpperCase_def replace_non_alnum_def is_alnum_def toUpper_char_def)

lemma getInvalidTestData_login:
  "getInvalidTestData (JObj [(''username'', JStr ''string''), (''password'', JStr ''string'')])
     = Inr (JObj [(''username'', JNum 123), (''password'', JNum 123)])"
  by (simp add: getInvalidTestData_def assign_def)

text \<open>
  Claim C6. For every \<^verbatim>\<open>api\<close> input the synthesizer returns exactly 1 positive, 2
  negative, 2 boundary and 2 edge cases, 7 in all: whatever \<open>generateApiTestCases\<close> returns
  has these counts, and \<open>generateTestCases\<close> returns such a set on every input tagged
  \<^verbatim>\<open>api\<close> whose endpoint and method are strings (the data model's typing of the
  variant). For the input
  \<^verbatim>\<open>{endpoint: "/login", method: "POST", request: {username: "string", password: "string"}}\<close>
  the variant is \<^verbatim>\<open>api\<close>, the base identifier is \<^verbatim>\<open>TC__LOGIN\<close> and the test data of the
  second negative case is \<^verbatim>\<open>{username: 123, password: 123}\<close>.
\<close>

theorem api_variant_seven_cases:
  "(\<forall>apiInput baseId testCases.
       generateApiTestCases apiInput baseId = Inr testCases \<longrightarrow>
         (\<exists>p n1 n2 b1 b2 e1 e2.
             testCases = JObj [(''positive'', JArr [p]), (''negative'', JArr [n1, n2]),
                               (''boundary'', JArr [b1, b2]), (''edge'', JArr [e1, e2])]
           \<and> flatLength testCases = 7))
   \<and> (\<forall>ni endpoint method.
         getProp ni ''type'' = Some (JStr ''api'')
         \<and> getProp ni ''endpoint'' = Some (JStr endpoint)
         \<and> getProp ni ''method'' = Some (JStr method)
         \<longrightarrow> (\<exists>p n1 n2 b1 b2 e1 e2.
                generateTestCases ni
                  = Inr (JObj [(''positive'', JArr [p]), (''negative'', JArr [n1, n2]),
                               (''boundary'', JArr [b1, b2]), (''edge'', JArr [e1, e2])])))
   \<and> (\<exists>normalized.
         normalizeInput JSON_parse loginApiSpec = Inr normalized
       \<and> getProp normalized ''type'' = Some (JStr ''api'')
       \<and> generateBaseId normalized = Inr ''TC__LOGIN''
       \<and> (\<exists>p n1 n2 b1 b2 e1 e2.
             generateTestCases normalized
               = Inr (JObj [(''positive'', JArr [p]), (''negative'', JArr [n1, n2]),
                            (''boundary'', JArr [b1, b2]), (''edge'', JArr [e1, e2])])
           \<and> getProp n2 ''test_data''
               = Some (JObj [(''username'', JNum 123), (''password'', JNum 123)])))"
proof (intro conjI allI impI)
  fix apiInput baseId testCases
  assume gen: "generateApiTestCases apiInput baseId = Inr testCases"
  from generateApiTestCases_returns [OF gen] obtain m ep where
    "apiInput \<noteq> JNull" "toStr_opt (getProp apiInput ''method'') = Inr m"
    "toStr_opt (getProp apiInput ''endpoint'') = Inr ep"
    by blast
  from generateApiTestCases_shape [OF this, of baseId] gen
  show "\<exists>p n1 n2 b1 b2 e1 e2.
             testCases = JObj [(''positive'', JArr [p]), (''negative'', JArr [n1, n2]),
                               (''boundary'', JArr [b1, b2]), (''edge'', JArr [e1, e2])]
           \<and> flatLength testCases = 7"
    by (auto simp: flatLength_def)
next
  fix ni ep m
  assume api: "getProp ni ''type'' = Some (JStr ''api'')
         \<and> getProp ni ''endpoint'' = Some (JStr ep)
         \<and> getProp ni ''method'' = Some (JStr m)"
  then have "ni \<noteq> JNull" by auto
  from generateApiTestCases_shape [OF this, of m ep
      "''TC_'' @ toUpperCase (replace_non_alnum ep)"]
    generateTestCases_api [of ni ep] api
  show "\<exists>p n1 n2 b1 b2 e1 e2.
                generateTestCases ni
                  = Inr (JObj [(''positive'', JArr [p]), (''negative'', JArr [n1, n2]),
                               (''boundary'', JArr [b1, b2]), (''edge'', JArr [e1, e2])])"
    by (auto simp: toStr_opt_def)
next
  let ?ni = "JObj [(''type'', JStr ''api''), (''endpoint'', JStr ''/login''), (''method'', JStr ''POST''),
             (''request'', JObj [(''username'', JStr ''string''), (''password'', JStr ''string'')]),
             (''response'', JObj [])]"
  have baseId: "generateBaseId ?ni = Inr ''TC__LOGIN''"
    using generateBaseId_api [of ?ni "''/login''"] baseId_login by simp
  have "?ni \<noteq> JNull" "toStr_opt (getProp ?ni ''method'') = Inr ''POST''"
    "toStr_opt (getProp ?ni ''endpoint'') = Inr ''/login''"
    by (simp_all add: toStr_opt_def)
  from generateApiTestCases_shape [OF this, of "''TC__LOGIN''"]
  obtain p n1 n2 b1 b2 e1 e2 invalidData where
    gen: "generateApiTestCases ?ni ''TC__LOGIN''
           = Inr (JObj [(''positive'', JArr [p]), (''negative'', JArr [n1, n2]),
                        (''boundary'', JArr [b1, b2]), (''edge'', JArr [e1, e2])])"
    and inv: "getInvalidTestData (js_or (getProp ?ni ''request'') (JObj [])) = Inr invalidData"
    and td: "getProp n2 ''test_data'' = Some invalidData"
    by blast
  from inv getInvalidTestData_login
  have "invalidData = JObj [(''username'', JNum 123), (''password'', JNum 123)]"
    by (simp add: js_or_def)
  moreover have "generateTestCases ?ni = generateApiTestCases ?ni ''TC__LOGIN''"
    using generateTestCases_api [of ?ni "''/login''"] baseId_login by simp
  ultimately have "\<exists>p n1 n2 b1 b2 e1 e2.
             generateTestCases ?ni
               = Inr (JObj [(''positive'', JArr [p]), (''negative'', JArr [n1, n2]),
                            (''boundary'', JArr [b1, b2]), (''edge'', JArr [e1, e2])])
           \<and> getProp n2 ''test_data''
               = Some (JObj [(''username'', JNum 123), (''password'', JNum 123)])"
    using gen td by auto
  with baseId normalizeInput_loginApiSpec [of JSON_parse]
  show "\<exists>normalized.
         normalizeInput JSON_parse loginApiSpec = Inr normalized
       \<and> getProp normalized ''type'' = Some (JStr ''api'')
       \<and> generateBaseId normalized = Inr ''TC__LOGIN''
       \<and> (\<exists>p n1 n2 b1 b2 e1 e2.
             generateTestCases normalized
               = Inr (JObj [(''positive'', JArr [p]), (''negative'', JArr [n1, n2]),
                            (''boundary'', JArr [b1, b2]), (''edge'', JArr [e1, e2])])
           \<and> getProp n2 ''test_data''
               = Some (JObj [(''username'', JNum 123), (''password'', JNum 123)]))"
    by (intro exI [of _ ?ni]) simp
qed

theorem api_variant_seven_cases_witness:
  "(\<exists>testCases. generateApiTestCases
        (JObj [(''type'', JStr ''api''), (''endpoint'', JStr ''/users''), (''method'', JStr ''GET'')])
        ''TC__USERS'' = Inr testCases
      \<and> flatLength testCases = 7)
   \<and> (\<exists>p n1 n2 b1 b2 e1 e2.
         generateTestCases
           (JObj [(''type'', JStr ''api''), (''endpoint'', JStr ''/users''), (''method'', JStr ''GET'')])
           = Inr (JObj [(''positive'', JArr [p]), (''negative'', JArr [n1, n2]),
                        (''boundary'', JArr [b1, b2]), (''edge'', JArr [e1, e2])]))
   \<and> (\<exists>normalized. normalizeInput unparsable loginApiSpec = Inr normalized
         \<and> generateBaseId normalized = Inr ''TC__LOGIN'')"
proof -
  let ?ni = "JObj [(''type'', JStr ''api''), (''endpoint'', JStr ''/users''), (''method'', JStr ''GET'')]"
  note inst = api_variant_seven_cases [of unparsable]
  from inst have typed: "\<exists>p n1 n2 b1 b2 e1 e2.
         generateTestCases ?ni
           = Inr (JObj [(''positive'', JArr [p]), (''negative'', JArr [n1, n2]),
                        (''boundary'', JArr [b1, b2]), (''edge'', JArr [e1, e2])])"
    by (elim conjE allE [of _ ?ni] allE [of _ "''/users''"] allE [of _ "''GET''"]) simp
  have "''TC_'' @ toUpperCase (replace_non_alnum ''/users'') = ''TC__USERS''"
    by (simp add: toUpperCase_def replace_non_alnum_def is_alnum_def toUpper_char_def)
  with typed generateTestCases_api [of ?ni "''/users''"]
  obtain testCases where gen: "generateApiTestCases ?ni ''TC__USERS'' = Inr testCases"
    by auto
  with inst have "flatLength testCases = 7" by blast
  with gen typed inst show ?thesis by blast
qed

lemma normalizeInput_userStoryText:
  assumes "JSON_parse userStoryText = None"
  shows "normalizeInput JSON_parse (JStr userStoryText)
     = Inr (JObj [(''type'', JStr ''raw_text''),
             (''content'',
              JStr ''{\"raw\":\"As a user I want to login so that I can access dashboard\"}'')])"
  using assms
  by (simp add: normalize_defs quote_json_def json_escapes_def backslash_def)
    (simp add: userStoryText_def)

lemma generateBaseId_wrapped_text:
  "generateBaseId
     (JObj [(''type'', JStr ''raw_text''),
            (''content'',
             JStr ''{\"raw\":\"As a user I want to login so that I can access dashboard\"}'')])
     = Inr ''TC_RAW_USER_WANT''"
  by (simp add: generateBaseId_def js_or_def match_words3_def is_word_char_def is_alnum_def
      toUpperCase_def toUpper_char_def)

lemma extractMainFeature_wrapped_text:
  "extractMainFeature
     (Some (JStr ''{\"raw\":\"As a user I want to login so that I can access dashboard\"}''))
     = Inr ''feature''"
  by (simp add: extractMainFeature_def featureWords_def toLowerCase_def toLower_char_def)

text \<open>
  The record \<^verbatim>\<open>{type: "user_story", content: "As a user I want to login ..."}\<close> passes
  normalization unchanged; its base identifier is \<^verbatim>\<open>TC_USER_WANT_LOGIN\<close> and the main
  action found in its content is \<^verbatim>\<open>login\<close>.
\<close>

lemma structured_user_story_record:
  "normalizeInput JSON_parse (JObj [(''type'', JStr ''user_story''), (''content'', JStr userStoryText)])
     = Inr (JObj [(''type'', JStr ''user_story''), (''content'', JStr userStoryText)])
   \<and> generateBaseId (JObj [(''type'', JStr ''user_story''), (''content'', JStr userStoryText)])
       = Inr ''TC_USER_WANT_LOGIN''
   \<and> extractMainAction (Some (JStr userStoryText)) = Inr ''login''"
  by (simp add: normalizeInput_def normalizeInput_try_def truthy_opt_def generateBaseId_def js_or_def
      match_words3_def is_word_char_def is_alnum_def toUpperCase_def toUpper_char_def
      extractMainAction_def actionWords_def toLowerCase_def toLower_char_def userStoryText_def)

text \<open>
  Claim C1 describes the plain text
  \<^verbatim>\<open>As a user I want to login so that I can access dashboard\<close> as classified
  \<^verbatim>\<open>user_story\<close>, with main action \<^verbatim>\<open>login\<close> and base identifier
  \<^verbatim>\<open>TC_USER_WANT_LOGIN\<close>. The text is not JSON, so \<^verbatim>\<open>JSON.parse\<close> throws on it and the
  code wraps it as \<^verbatim>\<open>{raw: ...}\<close>, which has none of the story fields: the variant is
  \<^verbatim>\<open>raw_text\<close>, the content is the serialized wrapper, the base identifier is
  \<^verbatim>\<open>TC_RAW_USER_WANT\<close>, the raw-text generator runs with main feature \<^verbatim>\<open>feature\<close>, and
  the answer has 4 cases, one per section, and \<open>isValid\<close> false.
\<close>

theorem plain_user_story_text_is_raw_text:
  assumes "JSON_parse userStoryText = None"
  shows "normalizeInput JSON_parse (JStr userStoryText)
           = Inr (JObj [(''type'', JStr ''raw_text''),
                   (''content'',
                    JStr ''{\"raw\":\"As a user I want to login so that I can access dashboard\"}'')])
         \<and> bind_err (normalizeInput JSON_parse (JStr userStoryText)) generateBaseId
             = Inr ''TC_RAW_USER_WANT''
         \<and> bind_err (normalizeInput JSON_parse (JStr userStoryText)) generateTestCases
             = bind_err (normalizeInput JSON_parse (JStr userStoryText))
                 (\<lambda>normalized. generateRawTextTestCases normalized ''TC_RAW_USER_WANT'')
         \<and> bind_err (normalizeInput JSON_parse (JStr userStoryText))
               (\<lambda>normalized. extractMainFeature (getProp normalized ''content''))
             = Inr ''feature''
         \<and> (\<exists>r. generate_test_cases JSON_parse (JStr userStoryText) = Inr r
                \<and> input_type r = Some (JStr ''raw_text'')
                \<and> total_cases (summary r) = 4
                \<and> by_section (summary r)
                    = [(''positive'', Some (JNum 1)), (''negative'', Some (JNum 1)),
                       (''boundary'', Some (JNum 1)), (''edge'', Some (JNum 1))]
                \<and> isValid (validation r) = False)"
proof -
  let ?ni = "JObj [(''type'', JStr ''raw_text''),
                   (''content'',
                    JStr ''{\"raw\":\"As a user I want to login so that I can access dashboard\"}'')]"
  have ni: "normalizeInput JSON_parse (JStr userStoryText) = Inr ?ni"
    using assms by (rule normalizeInput_userStoryText)
  have dispatch: "generateTestCases ?ni = generateRawTextTestCases ?ni ''TC_RAW_USER_WANT''"
    using generateBaseId_wrapped_text by (simp add: generateTestCases_def bind_err_def)
  from generateRawTextTestCases_shape [of ?ni _ "''TC_RAW_USER_WANT''"]
  obtain p n b e where
    gen: "generateRawTextTestCases ?ni ''TC_RAW_USER_WANT''
           = Inr (JObj [(''positive'', JArr [p]), (''negative'', JArr [n]),
                        (''boundary'', JArr [b]), (''edge'', JArr [e])])"
    and complete: "completeCase p" "completeCase n" "completeCase b" "completeCase e"
    by auto
  from complete have valid: "validateOutput (JObj [(''positive'', JArr [p]), (''negative'', JArr [n]),
                                  (''boundary'', JArr [b]), (''edge'', JArr [e])])
      = Inr \<lparr>isValid = False,
             errors = [lessThan3Error ''positive'', lessThan3Error ''negative'',
                       lessThan3Error ''boundary'', lessThan3Error ''edge'']\<rparr>"
    by (simp add: validateOutput_four_sections)
  have "\<exists>r. generate_test_cases JSON_parse (JStr userStoryText) = Inr r
                \<and> input_type r = Some (JStr ''raw_text'')
                \<and> total_cases (summary r) = 4
                \<and> by_section (summary r)
                    = [(''positive'', Some (JNum 1)), (''negative'', Some (JNum 1)),
                       (''boundary'', Some (JNum 1)), (''edge'', Some (JNum 1))]
                \<and> isValid (validation r) = False"
    by (simp add: generate_test_cases_def ni dispatch gen valid bind_err_def lengthOf_def
        flatLength_def)
  with ni dispatch generateBaseId_wrapped_text extractMainFeature_wrapped_text
  show ?thesis by (simp add: bind_err_def)
qed

theorem plain_user_story_text_is_raw_text_witness:
  "unparsable userStoryText = None
   \<and> normalizeInput unparsable (JStr userStoryText)
       = Inr (JObj [(''type'', JStr ''raw_text''),
                   (''content'',
                    JStr ''{\"raw\":\"As a user I want to login so that I can access dashboard\"}'')])
   \<and> bind_err (normalizeInput unparsable (JStr userStoryText)) generateBaseId
       = Inr ''TC_RAW_USER_WANT''
   \<and> (\<exists>r. generate_test_cases unparsable (JStr userStoryText) = Inr r
          \<and> input_type r = Some (JStr ''raw_text'')
          \<and> total_cases (summary r) = 4
          \<and> isValid (validation r) = False)"
proof -
  have h: "unparsable userStoryText = None" by (simp add: unparsable_def)
  from plain_user_story_text_is_raw_text [of unparsable] h show ?thesis by auto
qed

end
